theory Spec2Isabelle
  imports Main "HOL-Library.Word" "HOL-Library.Char_ord" "HOL-Library.List_Lexorder"
begin

section \<open>Data model of the locator (src/locator.cpp)\<close>

text \<open>
  A service descriptor (\<open>resolve_result_type\<close>) is an opaque blob that is only compared
  for equality. A peer key (\<open>key_type\<close>) is the triple uuid, hostname, locator port.
  Ports are \<open>uint16_t\<close>, group weights are \<open>unsigned int\<close>.
\<close>

type_synonym resolve_result_type = string
type_synonym key_type = "string \<times> string \<times> 16 word"
type_synonym endpoint_t = "string \<times> 16 word"

text \<open>
  A \<open>std::map\<close> is an association list kept in key order: \<open>map_put\<close> is
  \<open>m[k] = v\<close>, \<open>map_erase\<close> is \<open>m.erase(k)\<close>, \<open>map_of\<close> is \<open>m.find(k)\<close>, and
  iterating the list is iterating the map. \<open>synchronize_result_type\<close> is the
  \<open>std::map\<close> from service names to descriptors.
\<close>

fun map_put :: "'k::linorder \<Rightarrow> 'v \<Rightarrow> ('k \<times> 'v) list \<Rightarrow> ('k \<times> 'v) list" where
  "map_put k v [] = [(k, v)]"
| "map_put k v ((k', v') # m) =
     (if k < k' then (k, v) # (k', v') # m
      else if k = k' then (k, v) # m
      else (k', v') # map_put k v m)"

definition map_erase :: "'k \<Rightarrow> ('k \<times> 'v) list \<Rightarrow> ('k \<times> 'v) list" where
  "map_erase k m = filter (\<lambda>e. fst e \<noteq> k) m"

definition map_get :: "('k \<times> ('a list)) list \<Rightarrow> 'k \<Rightarrow> 'a list" where
  \<comment> \<open>the inner map stored under a key, the empty map when the key is absent\<close>
  "map_get m k = (case map_of m k of None \<Rightarrow> [] | Some v \<Rightarrow> v)"

type_synonym synchronize_result_type = "(string \<times> resolve_result_type) list"

text \<open>
  Every exception the modelled functions can raise, named by the place that raises it:
  \<^item> \<open>ServiceUnavailable\<close>: \<open>cocaine::error_t("the specified service is not available")\<close>
    thrown by \<open>resolve\<close>;
  \<^item> \<open>PortsExhausted\<close>: \<open>cocaine::error_t("no ports left for allocation")\<close> thrown by
    \<open>attach\<close>;
  \<^item> \<open>StorageError\<close>: a \<open>storage_error_t\<close> raised by the group store;
  \<^item> \<open>SystemError\<close>: a \<open>system_error\<close> raised by a socket call or by
    \<open>address::from_string\<close>;
  \<^item> \<open>DecodeError\<close>: a msgpack exception raised while unpacking a chunk;
  \<^item> \<open>NullPointer\<close>: a call through an empty \<open>m_gateway\<close>, \<open>m_announce\<close> or
    \<open>m_sink\<close>, or through a missing \<open>m_remotes\<close> entry;
  \<^item> \<open>Collaborator\<close>: any other exception, raised inside a collaborator (gateway,
    actor, store) and only passed through by the locator.
\<close>

datatype exn =
    ServiceUnavailable
  | PortsExhausted
  | StorageError string
  | SystemError string
  | DecodeError
  | NullPointer
  | Collaborator string

text \<open>
  \<open>BOOST_VERIFY(expr)\<close> raises nothing. When assertions are compiled in, a false
  \<open>expr\<close> aborts the process; under \<open>NDEBUG\<close> the expression is evaluated and not
  checked, and the function goes on. A call of the facade therefore has one of three
  outcomes: the process is aborted by an assertion (\<open>Aborted\<close>), the call runs into
  undefined behaviour, such as the use of the iterator \<open>end()\<close> (\<open>Undefined\<close>), or it
  returns, normally or with an exception, and leaves a state (\<open>Returns\<close>). What the build
  and the libraries fix is a parameter of the functions that depend on it: whether
  \<open>NDEBUG\<close> is defined, and the exception that \<open>address::from_string\<close> raises for a
  string, if any.
\<close>

datatype 'a outcome = Aborted | Undefined | Returns (result: 'a)

record platform_t =
  ndebug :: bool
  from_string :: "string \<Rightarrow> string option"

datatype priority = LogDebug | LogInfo | LogWarning | LogError

type_synonym log_entry = "priority \<times> string"

subsection \<open>Group index and router\<close>

text \<open>
  The structures \<open>group_index_t\<close>, \<open>router_t::groups_t\<close> and \<open>router_t\<close> are declared in
  locator.cpp; their member functions are defined in routing.inl.
\<close>

record group_index_t =
  g_services :: "string list"
  g_weights :: "32 word list"
  g_used_weights :: "32 word list"
  g_sum :: "32 word"

record groups_t =
  gs_groups :: "(string \<times> group_index_t) list"
  gs_inverted :: "(string \<times> (string \<times> nat) list) list"

record router_t =
  r_services :: "(string \<times> string set) list"
  r_inverted :: "(string \<times> synchronize_result_type) list"
  r_groups :: groups_t

definition group_index :: "(string \<times> 32 word) list \<Rightarrow> group_index_t" where
  \<comment> \<open>Modelled from the spec: the constructor of group_index_t (routing.inl is not in src).
      Three parallel vectors built from the weighted map; no service is marked present yet.\<close>
  "group_index gmap =
     \<lparr> g_services = map fst gmap, g_weights = map snd gmap,
       g_used_weights = replicate (length gmap) 0, g_sum = 0 \<rparr>"

definition group_index_add :: "nat \<Rightarrow> group_index_t \<Rightarrow> group_index_t" where
  \<comment> \<open>Modelled from the spec: group_index_t::add (mark present; routing.inl is not in src).
      An index outside the group is a no-op; used[i] := declared[i]; the sum is updated.\<close>
  "group_index_add i g =
     (if i < length (g_services g) \<and> i < length (g_weights g) \<and> i < length (g_used_weights g)
      then g\<lparr> g_used_weights := (g_used_weights g)[i := g_weights g ! i],
              g_sum := g_sum g - g_used_weights g ! i + g_weights g ! i \<rparr>
      else g)"

definition group_index_remove :: "nat \<Rightarrow> group_index_t \<Rightarrow> group_index_t" where
  \<comment> \<open>Modelled from the spec: group_index_t::remove (mark absent; routing.inl is not in src).
      Symmetric to add: used[i] := 0.\<close>
  "group_index_remove i g =
     (if i < length (g_services g) \<and> i < length (g_weights g) \<and> i < length (g_used_weights g)
      then g\<lparr> g_used_weights := (g_used_weights g)[i := 0],
              g_sum := g_sum g - g_used_weights g ! i \<rparr>
      else g)"

fun pick_scan :: "string list \<Rightarrow> 32 word list \<Rightarrow> nat \<Rightarrow> nat \<Rightarrow> string option" where
  \<comment> \<open>Modelled from the spec: the scan of the weighted draw (routing.inl is not in src):
      \<open>acc\<close> is the running sum of the used weights, \<open>r\<close> the draw.\<close>
  "pick_scan (s # ss) (w # ws) acc r =
     (if r < acc + unat w then Some s else pick_scan ss ws (acc + unat w) r)"
| "pick_scan _ _ acc r = None"

definition pick :: "nat \<Rightarrow> group_index_t \<Rightarrow> string option" where
  \<comment> \<open>Modelled from the spec: the weighted draw of a group (routing.inl is not in src).
      \<open>None\<close> is EmptyGroup (sum = 0). The generator's output \<open>rnd\<close> is reduced to a draw r in
      [0, sum); the services are scanned, accumulating used[i], until the running sum
      exceeds r.\<close>
  "pick rnd g =
     (if g_sum g = 0 then None
      else pick_scan (g_services g) (g_used_weights g) 0 (rnd mod unat (g_sum g)))"

definition touch_groups ::
  "(nat \<Rightarrow> group_index_t \<Rightarrow> group_index_t) \<Rightarrow> (string \<times> nat) list \<Rightarrow>
   (string \<times> group_index_t) list \<Rightarrow> (string \<times> group_index_t) list" where
  \<comment> \<open>Modelled from the spec: the walk over an entry of the group inverted index
      (routing.inl is not in src): \<open>f index\<close> is applied to every group listed with its
      index.\<close>
  "touch_groups f entries groups =
     fold (\<lambda>(gname, i) gs. case map_of gs gname of None \<Rightarrow> gs
                            | Some g \<Rightarrow> map_put gname (f i g) gs) entries groups"

definition groups_add_service :: "string \<Rightarrow> groups_t \<Rightarrow> groups_t" where
  \<comment> \<open>Modelled from the spec: groups_t::add_service (routing.inl is not in src): every
      group containing the name, found through the group inverted index, marks it present.\<close>
  "groups_add_service name gs =
     gs\<lparr> gs_groups := touch_groups group_index_add (map_get (gs_inverted gs) name) (gs_groups gs) \<rparr>"

definition groups_remove_service :: "string \<Rightarrow> groups_t \<Rightarrow> groups_t" where
  \<comment> \<open>Modelled from the spec: groups_t::remove_service (routing.inl is not in src): every
      group containing the name marks it absent.\<close>
  "groups_remove_service name gs =
     gs\<lparr> gs_groups := touch_groups group_index_remove (map_get (gs_inverted gs) name) (gs_groups gs) \<rparr>"

definition groups_remove_group :: "string \<Rightarrow> groups_t \<Rightarrow> groups_t" where
  \<comment> \<open>Modelled from the spec: groups_t::remove_group (routing.inl is not in src): erases
      the group and its entries of the group inverted index.\<close>
  "groups_remove_group name gs =
     \<lparr> gs_groups = map_erase name (gs_groups gs),
       gs_inverted = filter (\<lambda>(service, m). m \<noteq> [])
                       (map (\<lambda>(service, m). (service, map_erase name m)) (gs_inverted gs)) \<rparr>"

definition groups_add_group ::
  "(string \<Rightarrow> bool) \<Rightarrow> string \<Rightarrow> (string \<times> 32 word) list \<Rightarrow> groups_t \<Rightarrow> groups_t" where
  \<comment> \<open>Modelled from the spec: groups_t::add_group (routing.inl is not in src): replaces any
      group of this name, records the index of each service in the group inverted index and
      rebuilds the used weights by consulting the forward index of the router (\<open>has\<close>).\<close>
  "groups_add_group has name gmap gs =
     (let gs1 = groups_remove_group name gs;
          idx = fold (\<lambda>i g. if has (g_services g ! i) then group_index_add i g else g)
                  [0 ..< length gmap] (group_index gmap);
          inv = fold (\<lambda>i m. map_put (g_services idx ! i)
                               (map_put name i (map_get m (g_services idx ! i))) m)
                  [0 ..< length gmap] (gs_inverted gs1)
      in \<lparr> gs_groups = map_put name idx (gs_groups gs1), gs_inverted = inv \<rparr>)"

definition groups_select_service :: "nat \<Rightarrow> string \<Rightarrow> groups_t \<Rightarrow> string" where
  \<comment> \<open>Modelled from the spec: groups_t::select_service (routing.inl is not in src): a group
      name is resolved by a weighted draw; an unknown group or an empty group falls back to
      the name itself.\<close>
  "groups_select_service rnd name gs =
     (case map_of (gs_groups gs) name of
        None \<Rightarrow> name
      | Some g \<Rightarrow> (case pick rnd g of None \<Rightarrow> name | Some service \<Rightarrow> service))"

definition has :: "string \<Rightarrow> router_t \<Rightarrow> bool" where
  \<comment> \<open>Modelled from the spec: router_t::has (routing.inl is not in src): the forward index
      lists the name with a non-empty set of uuids.\<close>
  "has name r = (case map_of (r_services r) name of None \<Rightarrow> False | Some us \<Rightarrow> us \<noteq> {})"

definition add_local :: "string \<Rightarrow> router_t \<Rightarrow> router_t" where
  \<comment> \<open>Modelled from the spec: router_t::add_local (routing.inl is not in src): every group
      containing the name marks it present.\<close>
  "add_local name r = r\<lparr> r_groups := groups_add_service name (r_groups r) \<rparr>"

definition remove_local :: "string \<Rightarrow> router_t \<Rightarrow> router_t" where
  \<comment> \<open>Modelled from the spec: router_t::remove_local (routing.inl is not in src): when the
      forward index still lists remote providers the groups stay as they are; otherwise the
      name is marked absent everywhere.\<close>
  "remove_local name r =
     (if has name r then r else r\<lparr> r_groups := groups_remove_service name (r_groups r) \<rparr>)"

definition router_add :: "string \<Rightarrow> string \<Rightarrow> resolve_result_type \<Rightarrow> router_t \<Rightarrow> router_t" where
  \<comment> \<open>Modelled from the spec: router_t::add (routing.inl is not in src): both indices are
      updated; the groups are touched on the first presence of the name only.\<close>
  "router_add uuid name info r =
     (let providers = (case map_of (r_services r) name of None \<Rightarrow> {} | Some us \<Rightarrow> us);
          r1 = r\<lparr> r_services := map_put name (insert uuid providers) (r_services r),
                  r_inverted := map_put uuid (map_put name info (map_get (r_inverted r) uuid))
                                  (r_inverted r) \<rparr>
      in if has name r then r1 else r1\<lparr> r_groups := groups_add_service name (r_groups r1) \<rparr>)"

definition router_remove :: "string \<Rightarrow> string \<Rightarrow> router_t \<Rightarrow> router_t" where
  \<comment> \<open>Modelled from the spec: router_t::remove (routing.inl is not in src): both indices
      are updated; the groups are touched on the last absence of the name only.\<close>
  "router_remove uuid name r =
     (let providers = (case map_of (r_services r) name of None \<Rightarrow> {} | Some us \<Rightarrow> us) - {uuid};
          r1 = r\<lparr> r_services := (if providers = {} then map_erase name (r_services r)
                                  else map_put name providers (r_services r)),
                  r_inverted := (case map_of (r_inverted r) uuid of
                                   None \<Rightarrow> r_inverted r
                                 | Some m \<Rightarrow> map_put uuid (map_erase name m) (r_inverted r)) \<rparr>
      in if has name r \<and> providers = {}
         then r1\<lparr> r_groups := groups_remove_service name (r_groups r1) \<rparr> else r1)"

definition update_remote ::
  "string \<Rightarrow> synchronize_result_type \<Rightarrow> router_t \<Rightarrow>
   (synchronize_result_type \<times> synchronize_result_type) \<times> router_t" where
  \<comment> \<open>Modelled from the spec: router_t::update_remote (routing.inl is not in src). Added are
      the entries of the snapshot whose (name, descriptor) differs from or is missing in the
      current subtree of the uuid; removed are the current entries absent from the snapshot,
      so a changed descriptor is a remove and an add. The removals and then the additions
      are applied to the indices; the result is (added, removed).\<close>
  "update_remote uuid snapshot r =
     (let current = map_get (r_inverted r) uuid;
          added = filter (\<lambda>(name, d). map_of current name \<noteq> Some d) snapshot;
          removed = filter (\<lambda>(name, d). map_of snapshot name \<noteq> Some d) current;
          r1 = fold (\<lambda>(name, d). router_remove uuid name) removed r;
          r2 = fold (\<lambda>(name, d). router_add uuid name d) added r1
      in ((added, removed), r2))"

definition remove_remote :: "string \<Rightarrow> router_t \<Rightarrow> synchronize_result_type \<times> router_t" where
  \<comment> \<open>Modelled from the spec: router_t::remove_remote (routing.inl is not in src): drops the
      uuid from all indices in one shot and returns the subtree that was dropped; a name
      whose only provider was the uuid is marked absent in its groups.\<close>
  "remove_remote uuid r =
     (let removed = map_get (r_inverted r) uuid;
          lost = map fst (filter (\<lambda>(name, us). us = {uuid}) (r_services r));
          services = filter (\<lambda>(name, us). us \<noteq> {})
                       (map (\<lambda>(name, us). (name, us - {uuid})) (r_services r))
      in (removed,
          \<lparr> r_services = services,
            r_inverted = map_erase uuid (r_inverted r),
            r_groups = fold groups_remove_service lost (r_groups r) \<rparr>))"

definition add_group :: "string \<Rightarrow> (string \<times> 32 word) list \<Rightarrow> router_t \<Rightarrow> router_t" where
  \<comment> \<open>Modelled from the spec: router_t::add_group (routing.inl is not in src).\<close>
  "add_group name gmap r =
     r\<lparr> r_groups := groups_add_group (\<lambda>service. has service r) name gmap (r_groups r) \<rparr>"

definition remove_group :: "string \<Rightarrow> router_t \<Rightarrow> router_t" where
  \<comment> \<open>Modelled from the spec: router_t::remove_group (routing.inl is not in src).\<close>
  "remove_group name r = r\<lparr> r_groups := groups_remove_group name (r_groups r) \<rparr>"

definition select_service :: "nat \<Rightarrow> string \<Rightarrow> router_t \<Rightarrow> string" where
  \<comment> \<open>Modelled from the spec: router_t::select_service (routing.inl is not in src); \<open>rnd\<close>
      is the output of the random generator for this call.\<close>
  "select_service rnd name r = groups_select_service rnd name (r_groups r)"

definition group_ok :: "group_index_t \<Rightarrow> bool" where
  \<comment> \<open>the numeric part of the group invariant: three vectors of one length, every used
      weight either 0 or the declared weight, and the cached sum equal to the sum of the
      used weights (in the arithmetic of \<open>unsigned int\<close>)\<close>
  "group_ok g \<longleftrightarrow>
     length (g_weights g) = length (g_services g)
     \<and> length (g_used_weights g) = length (g_services g)
     \<and> (\<forall>i < length (g_services g).
          g_used_weights g ! i = 0 \<or> g_used_weights g ! i = g_weights g ! i)
     \<and> g_sum g = sum_list (g_used_weights g)"

definition groups_ok :: "router_t \<Rightarrow> bool" where
  "groups_ok r \<longleftrightarrow> (\<forall>e \<in> set (gs_groups (r_groups r)). group_ok (snd e))"

subsection \<open>Collaborators of the facade\<close>

text \<open>
  The gateway, the actors, the subscriber streams, the reactor and the sockets are used
  by locator.cpp through their interfaces only. Each is modelled by what the locator can
  observe of it: the calls it received, in order, and the answers it gives.
\<close>

datatype gateway_call =
    Consume string string resolve_result_type
  | Cleanup string string

record gateway_t =
  gw_resolve :: "string \<Rightarrow> string + resolve_result_type"
  gw_calls :: "gateway_call list"

definition consume :: "string \<Rightarrow> string \<Rightarrow> resolve_result_type \<Rightarrow> gateway_t \<Rightarrow> gateway_t" where
  \<comment> \<open>Modelled from the spec: gateway_t::consume (cocaine/api/gateway.hpp is not in src):
      the gateway takes note of the call and returns.\<close>
  "consume uuid name info g = g\<lparr> gw_calls := gw_calls g @ [Consume uuid name info] \<rparr>"

definition cleanup :: "string \<Rightarrow> string \<Rightarrow> gateway_t \<Rightarrow> gateway_t" where
  \<comment> \<open>Modelled from the spec: gateway_t::cleanup (cocaine/api/gateway.hpp is not in src):
      the gateway takes note of the call and returns.\<close>
  "cleanup uuid name g = g\<lparr> gw_calls := gw_calls g @ [Cleanup uuid name] \<rparr>"

definition gateway_resolve :: "string \<Rightarrow> gateway_t \<Rightarrow> exn + resolve_result_type" where
  \<comment> \<open>Modelled from the spec: gateway_t::resolve (cocaine/api/gateway.hpp is not in src):
      the gateway answers with a descriptor or raises an exception of its own
      (\<open>gw_resolve\<close> is its answer for each name).\<close>
  "gateway_resolve target g =
     (case gw_resolve g target of Inl what \<Rightarrow> Inl (Collaborator what) | Inr d \<Rightarrow> Inr d)"

record actor_t =
  metadata :: resolve_result_type
  run_error :: "string option"
  location :: "endpoint_t list"

definition run :: "endpoint_t list \<Rightarrow> actor_t \<Rightarrow> exn + actor_t" where
  \<comment> \<open>Modelled from the spec: actor_t::run (cocaine/detail/actor.hpp is not in src): binds
      the actor to the endpoints, or raises when the bind fails (\<open>run_error\<close> is the
      exception this actor's bind raises, if any).\<close>
  "run endpoints a =
     (case run_error a of
        Some what \<Rightarrow> Inl (Collaborator what)
      | None \<Rightarrow> Inr (a\<lparr> location := endpoints \<rparr>))"

datatype frame = Snapshot synchronize_result_type | Terminal

record upstream_t =
  up_writable :: bool
  up_frames :: "frame list"

record synchronize_slot_t =
  m_upstreams :: "upstream_t list"

definition update :: "synchronize_result_type \<Rightarrow> synchronize_slot_t \<Rightarrow> synchronize_slot_t" where
  \<comment> \<open>Modelled from the spec: synchronize_slot_t::update (synchronization.inl is not in
      src), the broadcast of the feed: the snapshot is sent to each subscriber; a
      subscriber whose send fails is removed from the list.\<close>
  "update snapshot sy =
     sy\<lparr> m_upstreams :=
           map (\<lambda>u. u\<lparr> up_frames := up_frames u @ [Snapshot snapshot] \<rparr>)
             (filter up_writable (m_upstreams sy)) \<rparr>"

datatype request = Synchronize

record channel_t =
  ch_endpoint :: endpoint_t
  ch_written :: "request list"

record remote_t =
  channel :: channel_t
  timeout :: "nat option"

datatype task = Erase key_type

datatype datagram = Packed key_type | Garbage string

record ev_timer =
  timer_after :: nat
  timer_repeat :: nat

record config_t =
  network_uuid :: string
  network_hostname :: string
  network_locator :: "16 word"
  network_endpoint :: string
  network_group :: string
  network_gateway :: bool
  network_ports :: "(16 word \<times> 16 word) option"

subsection \<open>The locator\<close>

text \<open>
  The members of \<open>locator_t\<close>, as locator.cpp uses them (the class is declared in
  cocaine/detail/locator.hpp, which is not in src). \<open>m_log\<close> holds the lines handed to
  the logging facility (priority and format string), \<open>m_reactor\<close> the jobs posted to the
  reactor and not yet run, \<open>m_announce\<close> the datagrams handed to the announce socket,
  \<open>m_ports\<close> the free ports with the next port to allocate first (\<open>top\<close> is the head,
  \<open>pop\<close> the tail; \<open>push\<close> is taken to keep the smallest port first). The
  configuration \<open>m_context.config\<close> is a parameter of the functions that read it.
\<close>

record locator_t =
  m_log :: "log_entry list"
  m_reactor :: "task list"
  m_router :: router_t
  m_services :: "(string \<times> actor_t) list"
  m_ports :: "16 word list"
  m_gateway :: "gateway_t option"
  m_remotes :: "key_type \<rightharpoonup> remote_t"
  m_sink :: bool
  m_announce :: "datagram list option"
  m_announce_timer :: "ev_timer option"
  m_synchronizer :: "synchronize_slot_t option"

definition log :: "priority \<Rightarrow> string \<Rightarrow> locator_t \<Rightarrow> locator_t" where
  "log p msg s = s\<lparr> m_log := m_log s @ [(p, msg)] \<rparr>"

definition match :: "string \<Rightarrow> string \<times> 'a \<Rightarrow> bool" where
  "match name service = (name = fst service)"

definition dump :: "locator_t \<Rightarrow> synchronize_result_type" where
  "dump s = fold (\<lambda>(name, a) result. map_put name (metadata a) result) (m_services s) []"

definition synchronizer_update :: "locator_t \<Rightarrow> locator_t" where
  \<comment> \<open>\<open>if(m_synchronizer) m_synchronizer->update()\<close>\<close>
  "synchronizer_update s =
     (case m_synchronizer s of
        None \<Rightarrow> s
      | Some sy \<Rightarrow> s\<lparr> m_synchronizer := Some (update (dump s) sy) \<rparr>)"

definition attach ::
  "platform_t \<Rightarrow> config_t \<Rightarrow> string \<Rightarrow> actor_t \<Rightarrow> locator_t \<Rightarrow> (exn option \<times> locator_t) outcome" where
  \<comment> \<open>What a call that returns gives is the exception raised, if any, and the state the
      call leaves behind.\<close>
  "attach pf cfg name service s =
     (if \<not> ndebug pf \<and> find (match name) (m_services s) \<noteq> None then Aborted
      else if network_ports cfg \<noteq> None \<and> m_ports s = [] then Returns (Some PortsExhausted, s)
      else
        let port = (if network_ports cfg \<noteq> None then hd (m_ports s) else 0);
            s1 = (if network_ports cfg \<noteq> None then s\<lparr> m_ports := tl (m_ports s) \<rparr> else s)
        in case from_string pf (network_endpoint cfg) of
             Some what \<Rightarrow> Returns (Some (SystemError what), s1)
           | None \<Rightarrow>
               (case run [(network_endpoint cfg, port)] service of
                  Inl e \<Rightarrow> Returns (Some e, s1)
                | Inr service' \<Rightarrow>
                    let s2 = log LogInfo ''service '%s' published on port %d'' s1;
                        s3 = s2\<lparr> m_services := m_services s2 @ [(name, service')] \<rparr>;
                        s4 = s3\<lparr> m_router := add_local name (m_router s3) \<rparr>
                    in Returns (None, synchronizer_update s4)))"

fun erase_service :: "string \<Rightarrow> (string \<times> 'a) list \<Rightarrow> (string \<times> 'a) list" where
  "erase_service name [] = []"
| "erase_service name (e # es) = (if match name e then es else e # erase_service name es)"

definition detach ::
  "platform_t \<Rightarrow> config_t \<Rightarrow> string \<Rightarrow> locator_t \<Rightarrow> (actor_t \<times> locator_t) outcome" where
  \<comment> \<open>Under \<open>NDEBUG\<close> a name that is not attached leaves \<open>it\<close> at \<open>end()\<close>, which the
      next line dereferences; so does \<open>front()\<close> of an empty vector of endpoints.\<close>
  "detach pf cfg name s =
     (case find (match name) (m_services s) of
        None \<Rightarrow> (if ndebug pf then Undefined else Aborted)
      | Some it \<Rightarrow>
          (case location (snd it) of
             [] \<Rightarrow> Undefined
           | front # rest \<Rightarrow>
               let s1 = (if network_ports cfg \<noteq> None
                         then s\<lparr> m_ports := insort (snd front) (m_ports s) \<rparr> else s);
                   s2 = log LogInfo ''service '%s' withdrawn from port %d'' s1;
                   s3 = s2\<lparr> m_services := erase_service name (m_services s2) \<rparr>;
                   s4 = s3\<lparr> m_router := remove_local name (m_router s3) \<rparr>
               in Returns (snd it, synchronizer_update s4)))"

definition resolve :: "nat \<Rightarrow> string \<Rightarrow> locator_t \<Rightarrow> (exn + resolve_result_type) \<times> locator_t" where
  \<comment> \<open>\<open>rnd\<close> is the output of the router's random generator for this call. The state
      returned differs from the given one by the debug line only.\<close>
  "resolve rnd name s =
     (let target = select_service rnd name (m_router s)
      in case find (match target) (m_services s) of
           Some local \<Rightarrow>
             (Inr (metadata (snd local)), log LogDebug ''providing '%s' using local node'' s)
         | None \<Rightarrow>
             (case m_gateway s of
                Some g \<Rightarrow> (gateway_resolve target g, s)
              | None \<Rightarrow> (Inl ServiceUnavailable, s)))"

definition refresh ::
  "exn + (string \<times> 32 word) list \<Rightarrow> string \<Rightarrow> locator_t \<Rightarrow> exn option \<times> locator_t" where
  \<comment> \<open>\<open>stored\<close> is the outcome of \<open>group_t(m_context, name).to_map()\<close>, the read of the
      group from the store: the weighted map, or the exception the read raises.\<close>
  "refresh stored name s =
     (case stored of
        Inr gmap \<Rightarrow> (None, s\<lparr> m_router := add_group name gmap (m_router s) \<rparr>)
      | Inl (StorageError what) \<Rightarrow>
          (let s1 = log LogInfo ''unable to read group '%s' from storage - %s'' s
           in (None, s1\<lparr> m_router := remove_group name (m_router s1) \<rparr>))
      | Inl e \<Rightarrow> (Some e, s))"

subsection \<open>Peers: announces, synchronization, eviction\<close>

text \<open>
  What the network hands to the callbacks: the outcome of a read on the announce sink, the
  resolver and the connection attempts of a discovery, a message of a peer channel (the
  payload of a chunk is the unpacked snapshot, or nothing when it does not unpack), and
  the outcome of a write on the announce socket.
\<close>

datatype received = ReadFailed "nat option" | Received datagram

record net_t =
  resolver_query :: "string \<Rightarrow> 16 word \<Rightarrow> string + endpoint_t list"
  connects :: "endpoint_t \<Rightarrow> bool"

datatype message = Chunk "synchronize_result_type option" | ErrorFrame | Choke | Unknown nat

datatype write_result = Complete | Incomplete "nat option"

definition post :: "task \<Rightarrow> locator_t \<Rightarrow> locator_t" where
  \<comment> \<open>Modelled from the spec: reactor_t::post (cocaine/asio/reactor.hpp is not in src): the
      job is enqueued on the reactor, to be executed after the current callback returns.\<close>
  "post job s = s\<lparr> m_reactor := m_reactor s @ [job] \<rparr>"

fun deferred_erase_action :: "task \<Rightarrow> locator_t \<Rightarrow> locator_t" where
  \<comment> \<open>\<open>target.erase(key)\<close> with \<open>m_remotes\<close> as the target\<close>
  "deferred_erase_action (Erase key) s = s\<lparr> m_remotes := (m_remotes s)(key := None) \<rparr>"

definition reactor_turn :: "locator_t \<Rightarrow> locator_t" where
  \<comment> \<open>Modelled from the spec: the reactor executes the posted jobs, in the order of their
      posting, once no callback is running.\<close>
  "reactor_turn s = fold deferred_erase_action (m_reactor s) (s\<lparr> m_reactor := [] \<rparr>)"

fun connect_first :: "(endpoint_t \<Rightarrow> bool) \<Rightarrow> endpoint_t list \<Rightarrow> locator_t \<Rightarrow>
    endpoint_t option \<times> locator_t" where
  "connect_first ok [] s = (None, s)"
| "connect_first ok (it # rest) s =
     (if ok it then (Some it, s)
      else connect_first ok rest
             (log LogWarning ''unable to connect to node '%s' via endpoint '%s' - [%d] %s'' s))"

definition heartbeat :: "key_type \<Rightarrow> locator_t \<Rightarrow> exn + locator_t" where
  \<comment> \<open>the end of \<open>on_announce_event\<close>: the timeout of the entry is stopped and started
      again with 60 seconds\<close>
  "heartbeat key s =
     (let s1 = log LogDebug (''resetting the heartbeat timeout for node '%s'' @ [CHR 0x27]) s
      in case m_remotes s1 key of
           None \<Rightarrow> Inl NullPointer
         | Some remote \<Rightarrow> Inr (s1\<lparr> m_remotes := (m_remotes s1)(key \<mapsto> remote\<lparr> timeout := Some 60 \<rparr>) \<rparr>))"

definition on_announce_event :: "net_t \<Rightarrow> received \<Rightarrow> locator_t \<Rightarrow> exn + locator_t" where
  "on_announce_event net rcv s =
     (if \<not> m_sink s then Inl NullPointer
      else case rcv of
        ReadFailed ec \<Rightarrow>
          Inr (if ec \<noteq> None then log LogError ''unable to receive an announce - [%d] %s'' s else s)
      | Received (Garbage bytes) \<Rightarrow> Inr (log LogError ''unable to decode an announce'' s)
      | Received (Packed key) \<Rightarrow>
          (if m_remotes s key = None then
             (let (uuid, hostname, port) = key;
                  s1 = log LogInfo (''discovered node '%s' on '%s:%d'' @ [CHR 0x27]) s
              in case resolver_query net hostname port of
                   Inl what \<Rightarrow>
                     Inr (log LogError ''unable to resolve node '%s' endpoints - [%d] %s'' s1)
                 | Inr endpoints \<Rightarrow>
                     (case connect_first (connects net) endpoints s1 of
                        (None, s2) \<Rightarrow> Inr (log LogError (''unable to connect to node '%s'' @ [CHR 0x27]) s2)
                      | (Some endpoint, s2) \<Rightarrow>
                          heartbeat key
                            (s2\<lparr> m_remotes := (m_remotes s2)(key \<mapsto>
                                  \<lparr> channel = \<lparr> ch_endpoint = endpoint, ch_written = [Synchronize] \<rparr>,
                                    timeout = None \<rparr>) \<rparr>)))
           else heartbeat key s))"

definition on_announce_timer :: "config_t \<Rightarrow> write_result \<Rightarrow> locator_t \<Rightarrow> exn + locator_t" where
  \<comment> \<open>\<open>written\<close> is the outcome of \<open>m_announce->write\<close>: the whole buffer
      (\<open>Complete\<close>), or any other count, with the error code when one is set.\<close>
  "on_announce_timer cfg written s =
     (case m_announce s of
        None \<Rightarrow> Inl NullPointer
      | Some sent \<Rightarrow>
          (let buffer = Packed (network_uuid cfg, network_hostname cfg, network_locator cfg);
               s1 = s\<lparr> m_announce := Some (sent @ [buffer]) \<rparr>
           in case written of
                Complete \<Rightarrow> Inr s1
              | Incomplete (Some ec) \<Rightarrow> Inr (log LogError ''unable to announce the node - [%d] %s'' s1)
              | Incomplete None \<Rightarrow> Inr (log LogError ''unable to announce the node'' s1)))"

fun cleanup_each :: "string \<Rightarrow> synchronize_result_type \<Rightarrow> gateway_t option \<Rightarrow>
    exn + gateway_t option" where
  \<comment> \<open>\<open>for(it ...) m_gateway->cleanup(uuid, it->first)\<close>\<close>
  "cleanup_each uuid [] gw = Inr gw"
| "cleanup_each uuid (it # rest) None = Inl NullPointer"
| "cleanup_each uuid (it # rest) (Some g) = cleanup_each uuid rest (Some (cleanup uuid (fst it) g))"

fun consume_each :: "string \<Rightarrow> synchronize_result_type \<Rightarrow> gateway_t option \<Rightarrow>
    exn + gateway_t option" where
  \<comment> \<open>\<open>for(it ...) m_gateway->consume(uuid, it->first, it->second)\<close>\<close>
  "consume_each uuid [] gw = Inr gw"
| "consume_each uuid (it # rest) None = Inl NullPointer"
| "consume_each uuid (it # rest) (Some g) =
     consume_each uuid rest (Some (consume uuid (fst it) (snd it) g))"

definition evict :: "string \<Rightarrow> locator_t \<Rightarrow> exn + locator_t" where
  \<comment> \<open>the part shared by the three callbacks that close a peer:
      \<open>removed = m_router->remove_remote(uuid)\<close>, then one cleanup for each entry\<close>
  "evict uuid s =
     (let (removed, router) = remove_remote uuid (m_router s)
      in case cleanup_each uuid removed (m_gateway s) of
           Inl e \<Rightarrow> Inl e
         | Inr gw \<Rightarrow> Inr (s\<lparr> m_router := router, m_gateway := gw \<rparr>))"

definition on_message :: "key_type \<Rightarrow> message \<Rightarrow> locator_t \<Rightarrow> exn + locator_t" where
  "on_message key message s =
     (let uuid = fst key
      in case message of
           Chunk None \<Rightarrow> Inl DecodeError
         | Chunk (Some unpacked) \<Rightarrow>
             (let (diff, router) = update_remote uuid unpacked (m_router s)
              in case cleanup_each uuid (snd diff) (m_gateway s) of
                   Inl e \<Rightarrow> Inl e
                 | Inr gw1 \<Rightarrow>
                     (case consume_each uuid (fst diff) gw1 of
                        Inl e \<Rightarrow> Inl e
                      | Inr gw2 \<Rightarrow> Inr (s\<lparr> m_router := router, m_gateway := gw2 \<rparr>)))
         | Unknown type_id \<Rightarrow>
             Inr (log LogError ''dropped unknown type %d synchronization message'' s)
         | _ \<Rightarrow>
             (case evict uuid (log LogInfo ''node '%s' has been shut down'' s) of
                Inl e \<Rightarrow> Inl e
              | Inr s1 \<Rightarrow> Inr (post (Erase key) s1)))"

definition on_failure :: "key_type \<Rightarrow> nat option \<Rightarrow> locator_t \<Rightarrow> exn + locator_t" where
  "on_failure key ec s =
     (let uuid = fst key;
          s0 = (if ec \<noteq> None
                then log LogWarning ''node '%s' has unexpectedly disconnected - [%d] %s'' s
                else log LogWarning ''node '%s' has unexpectedly disconnected'' s)
      in case evict uuid s0 of
           Inl e \<Rightarrow> Inl e
         | Inr s1 \<Rightarrow> Inr (s1\<lparr> m_remotes := (m_remotes s1)(key := None) \<rparr>))"

definition on_timeout :: "key_type \<Rightarrow> locator_t \<Rightarrow> exn + locator_t" where
  "on_timeout key s =
     (let uuid = fst key
      in case evict uuid (log LogWarning ''node '%s' has timed out'' s) of
           Inl e \<Rightarrow> Inl e
         | Inr s1 \<Rightarrow> Inr (s1\<lparr> m_remotes := (m_remotes s1)(key := None) \<rparr>))"

record sys_t =
  sys_sink :: "string option"
  sys_bind :: bool
  sys_join :: bool
  sys_gateway :: "string + gateway_t"
  sys_announce :: "string option"

definition connect ::
  "platform_t \<Rightarrow> config_t \<Rightarrow> sys_t \<Rightarrow> locator_t \<Rightarrow> exn option \<times> locator_t" where
  \<comment> \<open>\<open>sys\<close> holds what the system calls of \<open>connect\<close> answer: the exception raised by the
      creation of the sink socket or of the announce socket, if any, whether \<open>bind\<close> and
      the join of the multicast group succeed, and the gateway the context instantiates
      (or the exception it raises). \<open>m_sink\<close> stands for the sink socket and its watcher.
      The multicast group of the configuration is parsed first, before any socket exists;
      the address of the bindpoint is the constant 0.0.0.0, which parses.\<close>
  "connect pf cfg sys s =
     (case from_string pf (network_group cfg) of
        Some what \<Rightarrow> (Some (SystemError what), s)
      | None \<Rightarrow>
      (let federated =
            (if network_gateway cfg then
               (case sys_sink sys of
                  Some what \<Rightarrow> Inl (SystemError what, s)
                | None \<Rightarrow>
                    (let s1 = s\<lparr> m_sink := True \<rparr>
                     in if \<not> sys_bind sys
                        then Inl (SystemError ''unable to bind an announce socket'', s1)
                        else let s2 = log LogInfo (''joining multicast group '%s' on '%s'' @ [CHR 0x27]) s1
                             in if \<not> sys_join sys
                                then Inl (SystemError ''unable to join a multicast group'', s2)
                                else (case sys_gateway sys of
                                        Inl what \<Rightarrow> Inl (Collaborator what, s2)
                                      | Inr g \<Rightarrow> Inr (s2\<lparr> m_gateway := Some g \<rparr>))))
             else Inr s)
      in case federated of
           Inl (e, s') \<Rightarrow> (Some e, s')
         | Inr s3 \<Rightarrow>
             (let s4 = log LogInfo (''announcing the node on '%s'' @ [CHR 0x27]) s3
              in case sys_announce sys of
                   Some what \<Rightarrow> (Some (SystemError what), s4)
                 | None \<Rightarrow>
                     (None, s4\<lparr> m_announce := Some [],
                                m_announce_timer := Some \<lparr> timer_after = 0, timer_repeat = 5 \<rparr>,
                                m_synchronizer := Some \<lparr> m_upstreams = [] \<rparr> \<rparr>))))"

fun ticks :: "config_t \<Rightarrow> write_result list \<Rightarrow> locator_t \<Rightarrow> exn + locator_t" where
  \<comment> \<open>the announce timer fires once for each element of the list, the element being the
      outcome of the write of that tick\<close>
  "ticks cfg [] s = Inr s"
| "ticks cfg (written # rest) s =
     (case on_announce_timer cfg written s of Inl e \<Rightarrow> Inl e | Inr s' \<Rightarrow> ticks cfg rest s')"

subsection \<open>Runs of the connected locator\<close>

text \<open>
  What can happen to a locator between \<open>connect\<close> and \<open>disconnect\<close>: the callbacks of
  the reactor (a datagram on the announce sink, a message, a failure or a timeout of a
  peer, a tick of the announce timer, the execution of the posted jobs) and the calls of
  the facade.
\<close>

datatype event =
    AnnounceEvent net_t received
  | Message key_type message
  | Failure key_type "nat option"
  | Timeout key_type
  | AnnounceTimer write_result
  | Turn
  | Attach string actor_t
  | Detach string
  | Resolve nat string
  | Refresh "exn + (string \<times> 32 word) list" string

fun fire :: "platform_t \<Rightarrow> config_t \<Rightarrow> event \<Rightarrow> locator_t \<Rightarrow> locator_t option" where
  \<comment> \<open>The state after the event, when the locator lives on: an exception of a call of the
      facade goes to its caller and leaves the state of the call, while an exception of a
      callback, an abort or undefined behaviour ends the run (\<open>None\<close>).\<close>
  "fire pf cfg (AnnounceEvent net rcv) s =
     (case on_announce_event net rcv s of Inl e \<Rightarrow> None | Inr s' \<Rightarrow> Some s')"
| "fire pf cfg (Message key message) s =
     (case on_message key message s of Inl e \<Rightarrow> None | Inr s' \<Rightarrow> Some s')"
| "fire pf cfg (Failure key ec) s =
     (case on_failure key ec s of Inl e \<Rightarrow> None | Inr s' \<Rightarrow> Some s')"
| "fire pf cfg (Timeout key) s =
     (case on_timeout key s of Inl e \<Rightarrow> None | Inr s' \<Rightarrow> Some s')"
| "fire pf cfg (AnnounceTimer written) s =
     (case on_announce_timer cfg written s of Inl e \<Rightarrow> None | Inr s' \<Rightarrow> Some s')"
| "fire pf cfg Turn s = Some (reactor_turn s)"
| "fire pf cfg (Attach name service) s =
     (case attach pf cfg name service s of Returns (e, s') \<Rightarrow> Some s' | _ \<Rightarrow> None)"
| "fire pf cfg (Detach name) s =
     (case detach pf cfg name s of Returns (service, s') \<Rightarrow> Some s' | _ \<Rightarrow> None)"
| "fire pf cfg (Resolve rnd name) s = Some (snd (resolve rnd name s))"
| "fire pf cfg (Refresh stored name) s = Some (snd (refresh stored name s))"

fun run_events :: "platform_t \<Rightarrow> config_t \<Rightarrow> event list \<Rightarrow> locator_t \<Rightarrow> locator_t option" where
  \<comment> \<open>the events happen one after the other, in any order and without any guard\<close>
  "run_events pf cfg [] s = Some s"
| "run_events pf cfg (ev # evs) s =
     (case fire pf cfg ev s of None \<Rightarrow> None | Some s' \<Rightarrow> run_events pf cfg evs s')"

fun chunk_of_live_peer :: "event \<Rightarrow> locator_t \<Rightarrow> bool" where
  \<comment> \<open>the event, if it is a chunk, is the chunk of a peer that has its entry and no erase
      posted\<close>
  "chunk_of_live_peer (Message key (Chunk payload)) s \<longleftrightarrow>
     m_remotes s key \<noteq> None \<and> Erase key \<notin> set (m_reactor s)"
| "chunk_of_live_peer ev s \<longleftrightarrow> True"

fun chunks_of_live_peers ::
  "platform_t \<Rightarrow> config_t \<Rightarrow> event list \<Rightarrow> locator_t \<Rightarrow> bool" where
  \<comment> \<open>A condition on a run, which \<open>on_message\<close> does not check: every chunk of the run is
      dispatched for a peer that, at that moment, has its entry and no erase posted. All
      other events are free.\<close>
  "chunks_of_live_peers pf cfg [] s \<longleftrightarrow> True"
| "chunks_of_live_peers pf cfg (ev # evs) s \<longleftrightarrow>
     chunk_of_live_peer ev s
     \<and> (case fire pf cfg ev s of None \<Rightarrow> True | Some s' \<Rightarrow> chunks_of_live_peers pf cfg evs s')"

definition covered :: "locator_t \<Rightarrow> bool" where
  \<comment> \<open>every uuid that is a top-level key of the inverted remote catalog is the uuid of a
      peer entry that is not about to be erased\<close>
  "covered s \<longleftrightarrow>
     (\<forall>uuid \<in> fst ` set (r_inverted (m_router s)).
        \<exists>hostname port. m_remotes s (uuid, hostname, port) \<noteq> None
                         \<and> Erase (uuid, hostname, port) \<notin> set (m_reactor s))"


subsection \<open>Concrete configurations and states\<close>

definition cfg_pool :: config_t where
  \<comment> \<open>node-B, with a gateway and a pool of the three ports 5100, 5101 and 5102\<close>
  "cfg_pool =
     \<lparr> network_uuid = ''node-B'', network_hostname = ''b.example'', network_locator = 10053,
       network_endpoint = ''0.0.0.0'', network_group = ''226.1.1.1'', network_gateway = True,
       network_ports = Some (5100, 5103) \<rparr>"

definition cfg_plain :: config_t where
  "cfg_plain = cfg_pool\<lparr> network_gateway := False, network_ports := None \<rparr>"

definition storage_actor :: actor_t where
  "storage_actor =
     \<lparr> metadata = ''storage@local'', run_error = None, location = [(''0.0.0.0'', 5100)] \<rparr>"

definition cache_actor :: actor_t where
  "cache_actor = \<lparr> metadata = ''cache@local'', run_error = None, location = [] \<rparr>"

definition broken_actor :: actor_t where
  "broken_actor =
     \<lparr> metadata = ''cache@local'', run_error = Some ''address already in use'', location = [] \<rparr>"

definition adhoc_gateway :: gateway_t where
  "adhoc_gateway =
     \<lparr> gw_resolve = (\<lambda>name. if name = ''storage'' then Inr ''storage@A''
                              else Inl ''no route''),
       gw_calls = [] \<rparr>"

definition key_A :: key_type where
  "key_A = (''node-A'', ''a.example'', 10053)"

definition key_A' :: key_type where
  \<comment> \<open>the same node announced under another hostname\<close>
  "key_A' = (''node-A'', ''a.example.org'', 10053)"

definition key_C :: key_type where
  "key_C = (''node-C'', ''c.example'', 10053)"

definition live_remote :: remote_t where
  "live_remote =
     \<lparr> channel = \<lparr> ch_endpoint = (''10.0.0.1'', 10053), ch_written = [Synchronize] \<rparr>,
       timeout = Some 60 \<rparr>"

definition router_A :: router_t where
  \<comment> \<open>node-A offers the service storage; there is no routing group\<close>
  "router_A =
     \<lparr> r_services = [(''storage'', {''node-A''})],
       r_inverted = [(''node-A'', [(''storage'', ''storage@A'')])],
       r_groups = \<lparr> gs_groups = [], gs_inverted = [] \<rparr> \<rparr>"

definition locator_B :: locator_t where
  \<comment> \<open>the connected locator of node-B: storage is attached locally on port 5100 and
      offered by the peer node-A as well; two ports are free; one client is subscribed\<close>
  "locator_B =
     \<lparr> m_log = [], m_reactor = [], m_router = router_A,
       m_services = [(''storage'', storage_actor)], m_ports = [5101, 5102],
       m_gateway = Some adhoc_gateway, m_remotes = [key_A \<mapsto> live_remote], m_sink = True,
       m_announce = Some [], m_announce_timer = Some \<lparr> timer_after = 0, timer_repeat = 5 \<rparr>,
       m_synchronizer = Some \<lparr> m_upstreams =
         [\<lparr> up_writable = True, up_frames = [Snapshot [(''storage'', ''storage@local'')]] \<rparr>] \<rparr> \<rparr>"

definition locator_exhausted :: locator_t where
  \<comment> \<open>the same locator after two binds have failed and lost the two free ports\<close>
  "locator_exhausted = locator_B\<lparr> m_ports := [] \<rparr>"

definition locator_0 :: locator_t where
  \<comment> \<open>a freshly constructed locator without groups, port pool or gateway, not connected\<close>
  "locator_0 =
     \<lparr> m_log = [], m_reactor = [],
       m_router = \<lparr> r_services = [], r_inverted = [],
                    r_groups = \<lparr> gs_groups = [], gs_inverted = [] \<rparr> \<rparr>,
       m_services = [], m_ports = [], m_gateway = None, m_remotes = Map.empty,
       m_sink = False, m_announce = None, m_announce_timer = None, m_synchronizer = None \<rparr>"

definition router_AC :: router_t where
  \<comment> \<open>node-A offers queue and storage, node-C offers storage; there is no routing group\<close>
  "router_AC =
     \<lparr> r_services = [(''queue'', {''node-A''}), (''storage'', {''node-A'', ''node-C''})],
       r_inverted = [(''node-A'', [(''queue'', ''queue@A/1''), (''storage'', ''storage@A'')]),
                     (''node-C'', [(''storage'', ''storage@C'')])],
       r_groups = \<lparr> gs_groups = [], gs_inverted = [] \<rparr> \<rparr>"

definition locator_live :: locator_t where
  \<comment> \<open>the locator of node-B with the peers node-A and node-C synchronized\<close>
  "locator_live =
     locator_B\<lparr> m_router := router_AC,
                 m_remotes := [key_A \<mapsto> live_remote, key_C \<mapsto> live_remote] \<rparr>"

definition sys_ok :: sys_t where
  "sys_ok = \<lparr> sys_sink = None, sys_bind = True, sys_join = True,
              sys_gateway = Inr adhoc_gateway, sys_announce = None \<rparr>"

definition net_ok :: net_t where
  \<comment> \<open>every hostname resolves to one endpoint, and every endpoint accepts the connection\<close>
  "net_ok = \<lparr> resolver_query = (\<lambda>hostname port. Inr [(hostname, port)]),
              connects = (\<lambda>endpoint. True) \<rparr>"

definition debug_build :: platform_t where
  \<comment> \<open>assertions compiled in; the two addresses of the configurations below parse\<close>
  "debug_build =
     \<lparr> ndebug = False,
       from_string = (\<lambda>a. if a = ''0.0.0.0'' \<or> a = ''226.1.1.1'' then None
                          else Some ''invalid argument'') \<rparr>"

definition release_build :: platform_t where
  \<comment> \<open>the same libraries, built with \<open>NDEBUG\<close>\<close>
  "release_build = debug_build\<lparr> ndebug := True \<rparr>"

definition locator_fresh :: locator_t where
  \<comment> \<open>the freshly constructed locator of node-B, its pool filled, not connected\<close>
  "locator_fresh = locator_0\<lparr> m_ports := [5100, 5101, 5102] \<rparr>"

definition locator_connected :: locator_t where
  \<comment> \<open>the fresh locator of node-B after a successful \<open>connect\<close>\<close>
  "locator_connected = snd (connect debug_build cfg_pool sys_ok locator_fresh)"

definition late_chunk_run :: "event list" where
  \<comment> \<open>node-A is announced under two hostnames; node-C is announced, sends its snapshot,
      closes its stream and, before the reactor runs the posted erase, sends one more
      chunk\<close>
  "late_chunk_run =
     [AnnounceEvent net_ok (Received (Packed key_A)),
      AnnounceEvent net_ok (Received (Packed key_A')),
      AnnounceEvent net_ok (Received (Packed key_C)),
      Message key_C (Chunk (Some [(''queue'', ''queue@C/1'')])),
      Message key_C Choke,
      Message key_C (Chunk (Some [(''queue'', ''queue@C/1'')])),
      Turn]"

definition closing_frames_run :: "event list" where
  \<comment> \<open>node-A is announced under two hostnames; the first channel delivers an error frame
      and then a choke, the reactor runs the two posted erases, and the second channel
      delivers its snapshot\<close>
  "closing_frames_run =
     [AnnounceEvent net_ok (Received (Packed key_A)),
      AnnounceEvent net_ok (Received (Packed key_A')),
      Message key_A ErrorFrame,
      Message key_A Choke,
      Turn,
      Message key_A' (Chunk (Some [(''queue'', ''queue@A/1'')]))]"

section \<open>Properties of the facade\<close>

lemma find_match_None: "find (match name) xs = None \<longleftrightarrow> name \<notin> fst ` set xs"
  by (force simp: find_None_iff match_def)

lemma find_match_Some:
  "find (match name) xs = Some e \<Longrightarrow> e \<in> set xs \<and> fst e = name"
  by (auto simp: find_Some_iff match_def)

lemma gateway_resolve_not_unavailable: "gateway_resolve t g \<noteq> Inl ServiceUnavailable"
  by (simp add: gateway_resolve_def split: sum.splits)

text \<open>
  Claim C1. For every call \<open>resolve(name)\<close>, with \<open>t\<close> the name selected by the router:
  when \<open>t\<close> is locally attached the result is the descriptor of that local service,
  whatever the remote catalog and the gateway hold; when it is not and a gateway is
  configured the result is the gateway's answer for \<open>t\<close>; and \<open>resolve\<close> raises
  ServiceUnavailable exactly when there is no gateway and \<open>t\<close> has no local match.
\<close>

theorem resolve_local_then_gateway:
  "(select_service rnd name (m_router s) \<in> fst ` set (m_services s) \<longrightarrow>
      (\<exists>a. (select_service rnd name (m_router s), a) \<in> set (m_services s)
           \<and> fst (resolve rnd name s) = Inr (metadata a)))
   \<and> (select_service rnd name (m_router s) \<notin> fst ` set (m_services s) \<longrightarrow>
      (\<forall>g. m_gateway s = Some g \<longrightarrow>
           fst (resolve rnd name s) = gateway_resolve (select_service rnd name (m_router s)) g))
   \<and> (fst (resolve rnd name s) = Inl ServiceUnavailable \<longleftrightarrow>
      m_gateway s = None \<and> select_service rnd name (m_router s) \<notin> fst ` set (m_services s))"
proof -
  define t where "t = select_service rnd name (m_router s)"
  show ?thesis
  proof (cases "find (match t) (m_services s)")
    case None
    then have absent: "t \<notin> fst ` set (m_services s)"
      by (simp add: find_match_None)
    from None absent show ?thesis
      unfolding t_def [symmetric]
      by (cases "m_gateway s")
         (simp_all add: resolve_def t_def [symmetric] gateway_resolve_not_unavailable)
  next
    case (Some e)
    then have mem: "e \<in> set (m_services s)" and key: "fst e = t"
      using find_match_Some by blast+
    then have present: "t \<in> fst ` set (m_services s)"
      by force
    have "(t, snd e) \<in> set (m_services s)"
      using mem key by (metis prod.collapse)
    moreover have "fst (resolve rnd name s) = Inr (metadata (snd e))"
      using Some by (simp add: resolve_def t_def [symmetric])
    ultimately show ?thesis
      unfolding t_def [symmetric] using present by auto
  qed
qed

lemma select_service_no_groups:
  "gs_groups (r_groups r) = [] \<Longrightarrow> select_service rnd name r = name"
  by (simp add: select_service_def groups_select_service_def)

theorem resolve_local_then_gateway_witness:
  "select_service 7 ''storage'' (m_router locator_B) \<in> fst ` set (m_services locator_B)
   \<and> fst (resolve 7 ''storage'' locator_B) = Inr ''storage@local''
   \<and> select_service 7 ''cache'' (m_router locator_B) \<notin> fst ` set (m_services locator_B)
   \<and> m_gateway locator_B = Some adhoc_gateway
   \<and> fst (resolve 7 ''cache'' locator_B) = Inl (Collaborator ''no route'')
   \<and> fst (resolve 7 ''cache'' (locator_B\<lparr> m_gateway := None \<rparr>)) = Inl ServiceUnavailable"
proof -
  have sel: "\<And>n g. select_service 7 n (m_router (locator_B\<lparr> m_gateway := g \<rparr>)) = n"
    "\<And>n. select_service 7 n (m_router locator_B) = n"
    by (simp_all add: select_service_no_groups locator_B_def router_A_def)
  have srv: "m_services locator_B = [(''storage'', storage_actor)]"
    by (simp add: locator_B_def)
  have gw: "m_gateway locator_B = Some adhoc_gateway"
    by (simp add: locator_B_def)
  have local: "fst (resolve 7 ''storage'' locator_B) = Inr ''storage@local''"
    using resolve_local_then_gateway [of 7 "''storage''" locator_B]
    by (auto simp: sel srv storage_actor_def)
  have remote: "fst (resolve 7 ''cache'' locator_B) = Inl (Collaborator ''no route'')"
    using resolve_local_then_gateway [of 7 "''cache''" locator_B]
    by (simp add: sel srv gw gateway_resolve_def adhoc_gateway_def)
  have none: "fst (resolve 7 ''cache'' (locator_B\<lparr> m_gateway := None \<rparr>)) = Inl ServiceUnavailable"
    using resolve_local_then_gateway [of 7 "''cache''" "locator_B\<lparr> m_gateway := None \<rparr>"]
    by (simp add: sel srv)
  show ?thesis
    using local remote none by (simp add: sel srv gw)
qed

lemma run_cases:
  "run eps a = (case run_error a of Some what \<Rightarrow> Inl (Collaborator what)
                | None \<Rightarrow> Inr (a\<lparr> location := eps \<rparr>))"
  by (simp add: run_def)

lemma synchronizer_update_fields:
  "m_services (synchronizer_update s) = m_services s"
  "m_router (synchronizer_update s) = m_router s"
  "m_ports (synchronizer_update s) = m_ports s"
  "m_remotes (synchronizer_update s) = m_remotes s"
  "m_gateway (synchronizer_update s) = m_gateway s"
  "m_reactor (synchronizer_update s) = m_reactor s"
  "m_synchronizer (synchronizer_update s) = map_option (update (dump s)) (m_synchronizer s)"
  by (simp_all add: synchronizer_update_def split: option.splits)

lemma dump_cong: "m_services s = m_services s' \<Longrightarrow> dump s = dump s'"
  by (simp add: dump_def)

lemma attach_past_assertion:
  assumes "ndebug pf \<or> name \<notin> fst ` set (m_services s)"
  shows "attach pf cfg name a s =
     (if network_ports cfg \<noteq> None \<and> m_ports s = [] then Returns (Some PortsExhausted, s)
      else
        let port = (if network_ports cfg \<noteq> None then hd (m_ports s) else 0);
            s1 = (if network_ports cfg \<noteq> None then s\<lparr> m_ports := tl (m_ports s) \<rparr> else s)
        in case from_string pf (network_endpoint cfg) of
             Some what \<Rightarrow> Returns (Some (SystemError what), s1)
           | None \<Rightarrow>
               (case run_error a of
                  Some what \<Rightarrow> Returns (Some (Collaborator what), s1)
                | None \<Rightarrow>
                    Returns (None, synchronizer_update
                      (s1\<lparr> m_log := m_log s1 @ [(LogInfo, ''service '%s' published on port %d'')],
                           m_services := m_services s1
                              @ [(name, a\<lparr> location := [(network_endpoint cfg, port)] \<rparr>)],
                           m_router := add_local name (m_router s1) \<rparr>))))"
proof -
  have "ndebug pf \<or> find (match name) (m_services s) = None"
    using assms by (simp add: find_match_None)
  then show ?thesis
    by (auto simp: attach_def run_cases Let_def log_def split: option.splits)
qed

text \<open>
  Claim C5, as stated, fails: no build of \<open>attach\<close> fails with NameConflict. With storage
  attached and a port free, attaching a second actor under the name storage aborts the
  process when assertions are compiled in, and under \<open>NDEBUG\<close> it returns without an
  exception and leaves two entries named storage in the local catalog.
\<close>

theorem attach_no_name_conflict_counterexample:
  "''storage'' \<in> fst ` set (m_services locator_B)
   \<and> attach debug_build cfg_pool ''storage'' cache_actor locator_B = Aborted
   \<and> attach release_build cfg_pool ''storage'' cache_actor locator_B \<noteq> Aborted
   \<and> attach release_build cfg_pool ''storage'' cache_actor locator_B \<noteq> Undefined
   \<and> fst (result (attach release_build cfg_pool ''storage'' cache_actor locator_B)) = None
   \<and> map fst (m_services (snd (result (attach release_build cfg_pool ''storage'' cache_actor
                                         locator_B))))
       = [''storage'', ''storage'']"
proof -
  have "attach debug_build cfg_pool ''storage'' cache_actor locator_B = Aborted"
    by (simp add: attach_def debug_build_def locator_B_def match_def)
  moreover have "ndebug release_build \<or> ''storage'' \<notin> fst ` set (m_services locator_B)"
    by (simp add: release_build_def)
  from attach_past_assertion [OF this, of cfg_pool cache_actor]
  have "\<exists>s'. attach release_build cfg_pool ''storage'' cache_actor locator_B = Returns (None, s')
          \<and> map fst (m_services s') = [''storage'', ''storage'']"
    by (simp add: cfg_pool_def locator_B_def release_build_def debug_build_def cache_actor_def
        Let_def synchronizer_update_fields)
  ultimately show ?thesis
    by (auto simp: locator_B_def)
qed

text \<open>
  Claim C5, amended. \<open>attach(name, actor)\<close> raises no NameConflict: that the name is not
  yet attached is asserted, so with assertions compiled in a call with an attached name
  aborts the process, and under \<open>NDEBUG\<close> the name is not checked. The call fails with
  PortsExhausted exactly when it gets past the assertion (the name is not attached, or
  \<open>NDEBUG\<close>), a port pool is configured and the pool is empty, and then it leaves the
  state unchanged. When it returns without an exception, the actor, bound to its endpoint,
  is appended to the local catalog under the name, the router is \<open>add_local name\<close> of the
  old router, and the synchronizer, when there is one, has broadcast the snapshot of the
  new catalog.
\<close>

theorem attach_errors_and_success:
  "(attach pf cfg name a s = Aborted \<longleftrightarrow> \<not> ndebug pf \<and> name \<in> fst ` set (m_services s))
   \<and> attach pf cfg name a s \<noteq> Undefined
   \<and> ((\<exists>s'. attach pf cfg name a s = Returns (Some PortsExhausted, s')) \<longleftrightarrow>
        (ndebug pf \<or> name \<notin> fst ` set (m_services s))
        \<and> network_ports cfg \<noteq> None \<and> m_ports s = [])
   \<and> (attach pf cfg name a s = Returns (Some PortsExhausted, s1) \<longrightarrow> s1 = s)
   \<and> (attach pf cfg name a s = Returns (None, s2) \<longrightarrow>
        (\<exists>port. m_services s2
                  = m_services s @ [(name, a\<lparr> location := [(network_endpoint cfg, port)] \<rparr>)])
        \<and> m_router s2 = add_local name (m_router s)
        \<and> m_synchronizer s2 = map_option (update (dump s2)) (m_synchronizer s))"
proof (cases "ndebug pf \<or> name \<notin> fst ` set (m_services s)")
  case False
  then have "find (match name) (m_services s) \<noteq> None" and "\<not> ndebug pf"
    by (simp_all add: find_match_None)
  then have "attach pf cfg name a s = Aborted"
    by (simp add: attach_def)
  with False show ?thesis
    by simp
next
  case True
  note body = attach_past_assertion [OF True, of cfg a]
  have d: "\<And>s1 :: locator_t. dump (synchronizer_update s1) = dump s1"
    by (rule dump_cong) (simp add: synchronizer_update_fields)
  show ?thesis
  proof (cases "network_ports cfg \<noteq> None \<and> m_ports s = []")
    case exhausted: True
    with True body show ?thesis
      by auto
  next
    case False
    with True body show ?thesis
      by (auto simp: Let_def synchronizer_update_fields d split: option.splits)
  qed
qed

theorem attach_errors_and_success_witness:
  "attach debug_build cfg_pool ''storage'' cache_actor locator_B = Aborted
   \<and> attach debug_build cfg_pool ''cache'' cache_actor locator_exhausted
       = Returns (Some PortsExhausted, locator_exhausted)
   \<and> attach release_build cfg_pool ''storage'' cache_actor locator_exhausted
       = Returns (Some PortsExhausted, locator_exhausted)
   \<and> (\<exists>s2. attach debug_build cfg_pool ''cache'' cache_actor locator_B = Returns (None, s2)
          \<and> map fst (m_services s2) = [''storage'', ''cache'']
          \<and> m_router s2 = add_local ''cache'' router_A)"
proof -
  have srv: "m_services locator_B = [(''storage'', storage_actor)]"
    "m_services locator_exhausted = [(''storage'', storage_actor)]"
    and ports: "m_ports locator_exhausted = []" "network_ports cfg_pool \<noteq> None"
    and rt: "m_router locator_B = router_A"
    and build: "\<not> ndebug debug_build" "ndebug release_build"
    by (simp_all add: locator_exhausted_def locator_B_def cfg_pool_def debug_build_def
        release_build_def)
  have aborted: "attach debug_build cfg_pool ''storage'' cache_actor locator_B = Aborted"
    using attach_errors_and_success [of debug_build cfg_pool "''storage''" cache_actor locator_B]
    by (simp add: srv build)
  have exhausted: "attach pf cfg_pool name cache_actor locator_exhausted
                     = Returns (Some PortsExhausted, locator_exhausted)"
    if "ndebug pf \<or> name \<notin> fst ` set (m_services locator_exhausted)" for pf name
  proof -
    have "\<exists>s'. attach pf cfg_pool name cache_actor locator_exhausted
                 = Returns (Some PortsExhausted, s')"
      using attach_errors_and_success [of pf cfg_pool name cache_actor locator_exhausted
              locator_exhausted locator_exhausted] that ports
      by simp
    then obtain s' where "attach pf cfg_pool name cache_actor locator_exhausted
                            = Returns (Some PortsExhausted, s')"
      by blast
    then show ?thesis
      using attach_errors_and_success [of pf cfg_pool name cache_actor locator_exhausted s']
      by simp
  qed
  have "ndebug debug_build \<or> ''cache'' \<notin> fst ` set (m_services locator_B)"
    by (simp add: srv)
  from attach_past_assertion [OF this, of cfg_pool cache_actor]
  obtain s2 where ok: "attach debug_build cfg_pool ''cache'' cache_actor locator_B = Returns (None, s2)"
    by (simp add: cfg_pool_def locator_B_def debug_build_def cache_actor_def Let_def)
  have success: "map fst (m_services s2) = [''storage'', ''cache'']"
    "m_router s2 = add_local ''cache'' router_A"
    using attach_errors_and_success [of debug_build cfg_pool "''cache''" cache_actor locator_B _ s2] ok
    by (auto simp: srv rt)
  show ?thesis
    using aborted exhausted [of debug_build "''cache''"] exhausted [of release_build "''storage''"]
      ok success
    by (simp add: srv build)
qed

text \<open>
  Claim C10. When a port pool is configured and \<open>attach(name, actor)\<close> has popped a port,
  and the bind of the actor (\<open>service->run\<close>) then raises, the call raises that exception
  and leaves a state that differs from the state before the call only by the pool, which
  has lost the popped port: the port is not pushed back and the service is not inserted
  into the local catalog. The same state is left when the address of the endpoint does
  not parse and \<open>service->run\<close> is not reached. This holds in every build for a call that
  gets past the assertion on the name.
\<close>

theorem attach_bind_failure_loses_port:
  assumes "network_ports cfg \<noteq> None"
    and "ndebug pf \<or> name \<notin> fst ` set (m_services s)"
    and "m_ports s = port # rest"
    and "run_error a = Some what"
  shows "(from_string pf (network_endpoint cfg) = None \<longrightarrow>
           attach pf cfg name a s = Returns (Some (Collaborator what), s\<lparr> m_ports := rest \<rparr>))
    \<and> (\<exists>e. attach pf cfg name a s = Returns (Some e, s\<lparr> m_ports := rest \<rparr>))
    \<and> m_services (snd (result (attach pf cfg name a s))) = m_services s
    \<and> m_ports (snd (result (attach pf cfg name a s))) = rest"
  using assms(1,3,4) attach_past_assertion [OF assms(2), of cfg a]
  by (cases "from_string pf (network_endpoint cfg)") simp_all

theorem attach_bind_failure_loses_port_witness:
  "network_ports cfg_pool \<noteq> None
   \<and> ''cache'' \<notin> fst ` set (m_services locator_B)
   \<and> m_ports locator_B = [5101, 5102]
   \<and> run_error broken_actor = Some ''address already in use''
   \<and> from_string debug_build (network_endpoint cfg_pool) = None
   \<and> attach debug_build cfg_pool ''cache'' broken_actor locator_B
       = Returns (Some (Collaborator ''address already in use''), locator_B\<lparr> m_ports := [5102] \<rparr>)"
proof -
  have h1: "network_ports cfg_pool \<noteq> None"
    by (simp add: cfg_pool_def)
  have h2: "''cache'' \<notin> fst ` set (m_services locator_B)"
    by (simp add: locator_B_def)
  have h3: "m_ports locator_B = 5101 # [5102]"
    by (simp add: locator_B_def)
  have h4: "run_error broken_actor = Some ''address already in use''"
    by (simp add: broken_actor_def)
  have h5: "from_string debug_build (network_endpoint cfg_pool) = None"
    by (simp add: debug_build_def cfg_pool_def)
  show ?thesis
    using h1 h2 h3 h4 h5 attach_bind_failure_loses_port [OF h1 disjI2 [OF h2] h3 h4, of debug_build]
    by simp
qed

section \<open>Properties of the routing groups\<close>

lemma map_of_map_put: "map_of (map_put k v m) = (map_of m)(k \<mapsto> v)"
  by (induction m) auto

lemma map_of_map_erase: "map_of (map_erase k m) = (map_of m)(k := None)"
  by (induction m) (auto simp: map_erase_def)

lemma fold_mark_fields:
  "g_services (fold (\<lambda>i g. if P (g_services g ! i) then group_index_add i g else g) ixs start)
     = g_services start
   \<and> g_weights (fold (\<lambda>i g. if P (g_services g ! i) then group_index_add i g else g) ixs start)
     = g_weights start"
  by (induction ixs arbitrary: start) (auto simp: group_index_add_def)

lemma add_group_lookup:
  "\<exists>idx. map_of (gs_groups (r_groups (add_group name gmap r))) name = Some idx
         \<and> g_services idx = map fst gmap \<and> g_weights idx = map snd gmap"
  using fold_mark_fields [where P = "\<lambda>service. has service r" and start = "group_index gmap"
      and ixs = "[0 ..< length gmap]"]
  by (simp add: add_group_def groups_add_group_def Let_def map_of_map_put group_index_def)

lemma remove_group_lookup:
  "map_of (gs_groups (r_groups (remove_group name r))) name = None"
  by (simp add: remove_group_def groups_remove_group_def map_of_map_erase)

text \<open>
  Claim C6. \<open>refresh(group_name)\<close> reads the group from the store. When the read
  succeeds the router becomes \<open>add_group name map\<close> of the old router, so the name now
  denotes a group with exactly the services and weights read; when the read raises a
  StorageError, \<open>refresh\<close> raises nothing and the router becomes \<open>remove_group name\<close> of
  the old router, so the name denotes no group; any other exception is raised to the
  caller as it is, with the state unchanged.
\<close>

theorem refresh_outcomes:
  "refresh (Inr gmap) name s = (None, s\<lparr> m_router := add_group name gmap (m_router s) \<rparr>)
   \<and> (\<exists>idx. map_of (gs_groups (r_groups (m_router (snd (refresh (Inr gmap) name s))))) name
               = Some idx
            \<and> g_services idx = map fst gmap \<and> g_weights idx = map snd gmap)
   \<and> fst (refresh (Inl (StorageError what)) name s) = None
   \<and> m_router (snd (refresh (Inl (StorageError what)) name s)) = remove_group name (m_router s)
   \<and> map_of (gs_groups (r_groups (m_router (snd (refresh (Inl (StorageError what)) name s)))))
        name = None
   \<and> ((\<forall>what. e \<noteq> StorageError what) \<longrightarrow> refresh (Inl e) name s = (Some e, s))"
proof -
  have ok: "refresh (Inr gmap) name s = (None, s\<lparr> m_router := add_group name gmap (m_router s) \<rparr>)"
    by (simp add: refresh_def)
  have deleted:
    "fst (refresh (Inl (StorageError what)) name s) = None"
    "m_router (snd (refresh (Inl (StorageError what)) name s)) = remove_group name (m_router s)"
    by (simp_all add: refresh_def Let_def log_def)
  have other: "(\<forall>what. e \<noteq> StorageError what) \<longrightarrow> refresh (Inl e) name s = (Some e, s)"
    by (cases e) (simp_all add: refresh_def)
  show ?thesis
    using ok deleted other add_group_lookup [of name gmap "m_router s"]
      remove_group_lookup [of name "m_router s"]
    by simp
qed

theorem refresh_outcomes_witness:
  "(\<forall>what. Collaborator ''connection reset'' \<noteq> StorageError what)
   \<and> refresh (Inl (Collaborator ''connection reset'')) ''storages'' locator_B
       = (Some (Collaborator ''connection reset''), locator_B)
   \<and> fst (refresh (Inl (StorageError ''no such key'')) ''storages'' locator_B) = None
   \<and> fst (refresh (Inr [(''s1'', 1), (''s2'', 3)]) ''storages'' locator_B) = None"
  using refresh_outcomes [of "[(''s1'', 1), (''s2'', 3)]" "''storages''" locator_B
      "''no such key''" "Collaborator ''connection reset''"]
  by simp

lemma sum_list_update_ring:
  "i < length xs \<Longrightarrow> sum_list (xs[i := w]) = sum_list xs - xs ! i + (w :: 'a :: comm_ring)"
proof (induction xs arbitrary: i)
  case Nil
  then show ?case by simp
next
  case (Cons x xs)
  then show ?case
    by (cases i) (simp_all add: algebra_simps)
qed

lemma group_ok_index: "group_ok (group_index gmap)"
  by (simp add: group_ok_def group_index_def sum_list_replicate)

lemma group_ok_add: "group_ok g \<Longrightarrow> group_ok (group_index_add i g)"
  by (auto simp: group_ok_def group_index_add_def sum_list_update_ring nth_list_update)

lemma group_ok_remove: "group_ok g \<Longrightarrow> group_ok (group_index_remove i g)"
  by (auto simp: group_ok_def group_index_remove_def sum_list_update_ring nth_list_update)

lemma set_map_put: "set (map_put k v m) \<subseteq> insert (k, v) (set m)"
  by (induction m) (auto split: if_splits)

lemma touch_groups_ok:
  assumes "\<And>i g. group_ok g \<Longrightarrow> group_ok (f i g)"
    and "\<forall>e \<in> set groups. group_ok (snd e)"
  shows "\<forall>e \<in> set (touch_groups f entries groups). group_ok (snd e)"
  using assms(2) unfolding touch_groups_def
proof (induction entries arbitrary: groups)
  case Nil
  then show ?case by simp
next
  case (Cons entry entries)
  obtain gname i where entry: "entry = (gname, i)"
    by (cases entry) auto
  let ?next = "case map_of groups gname of None \<Rightarrow> groups
               | Some g \<Rightarrow> map_put gname (f i g) groups"
  have "\<forall>e \<in> set ?next. group_ok (snd e)"
  proof (cases "map_of groups gname")
    case None
    then show ?thesis using Cons.prems by simp
  next
    case (Some g)
    then have "(gname, g) \<in> set groups"
      by (rule map_of_SomeD)
    then have "group_ok g"
      using Cons.prems by force
    then have "group_ok (f i g)"
      by (rule assms(1))
    then show ?thesis
      using Some Cons.prems set_map_put [of gname "f i g" groups] by auto
  qed
  then show ?case
    using Cons.IH [of ?next] by (simp add: entry)
qed

lemma groups_add_service_ok:
  "\<forall>e \<in> set (gs_groups gs). group_ok (snd e) \<Longrightarrow>
   \<forall>e \<in> set (gs_groups (groups_add_service name gs)). group_ok (snd e)"
  using touch_groups_ok [of group_index_add] by (simp add: groups_add_service_def group_ok_add)

lemma groups_remove_service_ok:
  "\<forall>e \<in> set (gs_groups gs). group_ok (snd e) \<Longrightarrow>
   \<forall>e \<in> set (gs_groups (groups_remove_service name gs)). group_ok (snd e)"
  using touch_groups_ok [of group_index_remove] by (simp add: groups_remove_service_def group_ok_remove)

lemma add_local_ok: "groups_ok r \<Longrightarrow> groups_ok (add_local name r)"
  by (simp add: groups_ok_def add_local_def groups_add_service_ok)

lemma remove_local_ok: "groups_ok r \<Longrightarrow> groups_ok (remove_local name r)"
  by (simp add: groups_ok_def remove_local_def groups_remove_service_ok)

lemma router_add_ok: "groups_ok r \<Longrightarrow> groups_ok (router_add uuid name d r)"
  by (simp add: groups_ok_def router_add_def Let_def groups_add_service_ok)

lemma router_remove_ok: "groups_ok r \<Longrightarrow> groups_ok (router_remove uuid name r)"
  by (simp add: groups_ok_def router_remove_def Let_def groups_remove_service_ok)

lemma fold_ok:
  assumes "\<And>x r. groups_ok r \<Longrightarrow> groups_ok (f x r)"
  shows "groups_ok r \<Longrightarrow> groups_ok (fold f xs r)"
  by (induction xs arbitrary: r) (simp_all add: assms)

lemma update_remote_ok: "groups_ok r \<Longrightarrow> groups_ok (snd (update_remote uuid snapshot r))"
  by (simp add: update_remote_def Let_def fold_ok case_prod_beta router_add_ok router_remove_ok)

lemma fold_groups_remove_service_ok:
  "\<forall>e \<in> set (gs_groups gs). group_ok (snd e) \<Longrightarrow>
   \<forall>e \<in> set (gs_groups (fold groups_remove_service names gs)). group_ok (snd e)"
proof (induction names arbitrary: gs)
  case Nil
  then show ?case by simp
next
  case (Cons name names)
  have "\<forall>e \<in> set (gs_groups (groups_remove_service name gs)). group_ok (snd e)"
    using Cons.prems by (rule groups_remove_service_ok)
  then show ?case
    using Cons.IH by simp
qed

lemma remove_remote_ok: "groups_ok r \<Longrightarrow> groups_ok (snd (remove_remote uuid r))"
  by (simp add: groups_ok_def remove_remote_def Let_def fold_groups_remove_service_ok)

lemma fold_mark_ok:
  "group_ok g \<Longrightarrow>
   group_ok (fold (\<lambda>i g. if P (g_services g ! i) then group_index_add i g else g) ixs g)"
  by (induction ixs arbitrary: g) (simp_all add: group_ok_add)

lemma add_group_ok: "groups_ok r \<Longrightarrow> groups_ok (add_group name gmap r)"
proof -
  assume ok: "groups_ok r"
  have idx: "group_ok (fold (\<lambda>i g. if has (g_services g ! i) r then group_index_add i g else g)
                 [0 ..< length gmap] (group_index gmap))"
    using fold_mark_ok [where P = "\<lambda>service. has service r", OF group_ok_index] by simp
  have "\<forall>e \<in> set (map_erase name (gs_groups (r_groups r))). group_ok (snd e)"
    using ok by (simp add: groups_ok_def map_erase_def)
  then show ?thesis
    using idx set_map_put [of name _ "map_erase name (gs_groups (r_groups r))"]
    by (fastforce simp: groups_ok_def add_group_def groups_add_group_def groups_remove_group_def Let_def)
qed

lemma remove_group_ok: "groups_ok r \<Longrightarrow> groups_ok (remove_group name r)"
  by (simp add: groups_ok_def remove_group_def groups_remove_group_def map_erase_def)

text \<open>
  Every operation of the router keeps the numeric part of the group invariant: in every
  group each used weight is 0 or the declared weight, and the cached sum is the sum of the
  used weights.
\<close>

lemma groups_ok_preserved:
  assumes "groups_ok r"
  shows "groups_ok (add_local name r) \<and> groups_ok (remove_local name r)
    \<and> groups_ok (snd (update_remote uuid snapshot r)) \<and> groups_ok (snd (remove_remote uuid r))
    \<and> groups_ok (add_group name gmap r) \<and> groups_ok (remove_group name r)"
  using assms
  by (simp add: add_local_ok remove_local_ok update_remote_ok remove_remote_ok add_group_ok
      remove_group_ok)

text \<open>
  Claim C3, at the input where the code departs from it. The service s1 is attached
  locally and offered by no peer; then \<open>refresh("g")\<close> reads the group g = {s1: 1}. The
  service is resolvable, yet the group is rebuilt from the forward index of the remote
  catalog alone: used[0] = 0 while declared[0] = 1, the sum is 0, and resolving g falls
  back to the name g itself and fails. With the two calls in the other order the same
  group has used[0] = declared[0] = 1.
\<close>

theorem refresh_forgets_local_service:
  "attach debug_build cfg_plain ''s1'' storage_actor locator_0
     = Returns (None, snd (result (attach debug_build cfg_plain ''s1'' storage_actor locator_0)))
   \<and> attach release_build cfg_plain ''s1'' storage_actor locator_0
       = attach debug_build cfg_plain ''s1'' storage_actor locator_0
   \<and> ''s1'' \<in> fst ` set (m_services (snd (refresh (Inr [(''s1'', 1)]) ''g''
        (snd (result (attach debug_build cfg_plain ''s1'' storage_actor locator_0))))))
   \<and> map_of (gs_groups (r_groups (m_router (snd (refresh (Inr [(''s1'', 1)]) ''g''
        (snd (result (attach debug_build cfg_plain ''s1'' storage_actor locator_0)))))))) ''g''
       = Some \<lparr> g_services = [''s1''], g_weights = [1], g_used_weights = [0], g_sum = 0 \<rparr>
   \<and> fst (resolve 0 ''g'' (snd (refresh (Inr [(''s1'', 1)]) ''g''
        (snd (result (attach debug_build cfg_plain ''s1'' storage_actor locator_0))))))
       = Inl ServiceUnavailable
   \<and> attach debug_build cfg_plain ''s1'' storage_actor
        (snd (refresh (Inr [(''s1'', 1)]) ''g'' locator_0))
       = Returns (None, snd (result (attach debug_build cfg_plain ''s1'' storage_actor
                                       (snd (refresh (Inr [(''s1'', 1)]) ''g'' locator_0)))))
   \<and> map_of (gs_groups (r_groups (m_router (snd (result (attach debug_build cfg_plain ''s1''
        storage_actor (snd (refresh (Inr [(''s1'', 1)]) ''g'' locator_0)))))))) ''g''
       = Some \<lparr> g_services = [''s1''], g_weights = [1], g_used_weights = [1], g_sum = 1 \<rparr>"
  by (simp add: attach_def debug_build_def release_build_def cfg_plain_def cfg_pool_def
      locator_0_def match_def run_cases
      storage_actor_def log_def synchronizer_update_def add_local_def groups_add_service_def
      touch_groups_def map_get_def refresh_def add_group_def groups_add_group_def
      groups_remove_group_def map_erase_def group_index_def has_def resolve_def
      select_service_def groups_select_service_def pick_def Let_def group_index_add_def)

section \<open>Properties of the peer callbacks\<close>

lemma cleanup_each_Some:
  "cleanup_each uuid xs (Some g)
     = Inr (Some (g\<lparr> gw_calls := gw_calls g @ map (\<lambda>it. Cleanup uuid (fst it)) xs \<rparr>))"
  by (induction xs arbitrary: g) (simp_all add: cleanup_def)

lemma consume_each_Some:
  "consume_each uuid xs (Some g)
     = Inr (Some (g\<lparr> gw_calls := gw_calls g @ map (\<lambda>it. Consume uuid (fst it) (snd it)) xs \<rparr>))"
  by (induction xs arbitrary: g) (simp_all add: consume_def)

lemma evict_Some:
  "m_gateway s = Some g \<Longrightarrow>
   evict uuid s =
     Inr (s\<lparr> m_router := snd (remove_remote uuid (m_router s)),
             m_gateway := Some (g\<lparr> gw_calls := gw_calls g @
                 map (\<lambda>it. Cleanup uuid (fst it)) (fst (remove_remote uuid (m_router s))) \<rparr>) \<rparr>)"
  by (simp add: evict_def cleanup_each_Some split: prod.splits)

lemma evict_fields:
  "evict uuid s = Inr s' \<Longrightarrow>
   m_remotes s' = m_remotes s \<and> m_reactor s' = m_reactor s
   \<and> m_router s' = snd (remove_remote uuid (m_router s))"
  by (auto simp: evict_def split: prod.splits sum.splits)



lemma fold_erase_fields:
  "m_remotes (fold deferred_erase_action jobs s) key
     = (if Erase key \<in> set jobs then None else m_remotes s key)
   \<and> m_router (fold deferred_erase_action jobs s) = m_router s
   \<and> m_gateway (fold deferred_erase_action jobs s) = m_gateway s
   \<and> m_reactor (fold deferred_erase_action jobs s) = m_reactor s"
proof (induction jobs arbitrary: s)
  case Nil
  show ?case by simp
next
  case (Cons job jobs)
  show ?case
    by (cases job) (simp add: Cons.IH)
qed

lemma reactor_turn_fields:
  "m_remotes (reactor_turn s) key = (if Erase key \<in> set (m_reactor s) then None else m_remotes s key)"
  "m_router (reactor_turn s) = m_router s"
  "m_gateway (reactor_turn s) = m_gateway s"
  "m_reactor (reactor_turn s) = []"
  by (simp_all add: reactor_turn_def fold_erase_fields)

lemma log_fields:
  "m_router (log p msg s) = m_router s"
  "m_gateway (log p msg s) = m_gateway s"
  "m_remotes (log p msg s) = m_remotes s"
  "m_reactor (log p msg s) = m_reactor s"
  "m_services (log p msg s) = m_services s"
  "m_announce (log p msg s) = m_announce s"
  "m_announce_timer (log p msg s) = m_announce_timer s"
  by (simp_all add: log_def)





lemma split_at_entry:
  assumes "e \<in> set xs"
  shows "\<exists>before after. map f xs = before @ [f e] @ after"
proof -
  obtain ys zs where "xs = ys @ e # zs"
    using assms by (auto simp: in_set_conv_decomp)
  then have "map f xs = map f ys @ [f e] @ map f zs"
    by simp
  then show ?thesis by blast
qed

text \<open>
  Claim C7. When a synchronize chunk of the peer uuid arrives, the gateway receives, after
  everything it had received before, first one cleanup for each entry of the removed list
  returned by \<open>update_remote\<close> and then one consume for each entry of the added list. In
  particular, when the chunk changes the descriptor of a service q from d1 to d2, the
  gateway receives \<open>cleanup(uuid, q)\<close> before \<open>consume(uuid, q, d2)\<close>.
\<close>

theorem chunk_removals_before_additions:
  assumes "m_gateway s = Some g"
  shows "\<exists>s' g'. on_message key (Chunk (Some snapshot)) s = Inr s' \<and> m_gateway s' = Some g'
    \<and> m_router s' = snd (update_remote (fst key) snapshot (m_router s))
    \<and> gw_calls g' = gw_calls g
         @ map (\<lambda>it. Cleanup (fst key) (fst it))
             (snd (fst (update_remote (fst key) snapshot (m_router s))))
         @ map (\<lambda>it. Consume (fst key) (fst it) (snd it))
             (fst (fst (update_remote (fst key) snapshot (m_router s))))
    \<and> (map_of (map_get (r_inverted (m_router s)) (fst key)) q = Some d1
         \<and> map_of snapshot q = Some d2 \<and> d1 \<noteq> d2 \<longrightarrow>
       (\<exists>(c1 :: synchronize_result_type) (c2 :: synchronize_result_type) c3 c4. gw_calls g' = gw_calls g
            @ map (\<lambda>it. Cleanup (fst key) (fst it)) c1 @ [Cleanup (fst key) q]
            @ map (\<lambda>it. Cleanup (fst key) (fst it)) c2
            @ map (\<lambda>it. Consume (fst key) (fst it) (snd it)) c3 @ [Consume (fst key) q d2]
            @ map (\<lambda>it. Consume (fst key) (fst it) (snd it)) c4))"
proof -
  define diff where "diff = fst (update_remote (fst key) snapshot (m_router s))"
  define router where "router = snd (update_remote (fst key) snapshot (m_router s))"
  define g' where "g' = g\<lparr> gw_calls := gw_calls g
      @ map (\<lambda>it. Cleanup (fst key) (fst it)) (snd diff)
      @ map (\<lambda>it. Consume (fst key) (fst it) (snd it)) (fst diff) \<rparr>"
  have run: "on_message key (Chunk (Some snapshot)) s
               = Inr (s\<lparr> m_router := router, m_gateway := Some g' \<rparr>)"
    using assms
    by (simp add: on_message_def cleanup_each_Some consume_each_Some diff_def router_def g'_def
        Let_def case_prod_beta)
  have change: "\<exists>c1 c2 c3 c4. snd diff = c1 @ (q, d1) # c2 \<and> fst diff = c3 @ (q, d2) # c4"
    if old: "map_of (map_get (r_inverted (m_router s)) (fst key)) q = Some d1"
      and new: "map_of snapshot q = Some d2" and neq: "d1 \<noteq> d2"
  proof -
    have "(q, d1) \<in> set (snd diff)"
      using old new neq by (auto simp: diff_def update_remote_def Let_def dest: map_of_SomeD)
    moreover have "(q, d2) \<in> set (fst diff)"
      using old new neq by (auto simp: diff_def update_remote_def Let_def dest: map_of_SomeD)
    ultimately show ?thesis
      by (meson split_list)
  qed
  have calls: "map_of (map_get (r_inverted (m_router s)) (fst key)) q = Some d1
         \<and> map_of snapshot q = Some d2 \<and> d1 \<noteq> d2 \<longrightarrow>
       (\<exists>(c1 :: synchronize_result_type) (c2 :: synchronize_result_type) c3 c4.
          gw_calls g' = gw_calls g
            @ map (\<lambda>it. Cleanup (fst key) (fst it)) c1 @ [Cleanup (fst key) q]
            @ map (\<lambda>it. Cleanup (fst key) (fst it)) c2
            @ map (\<lambda>it. Consume (fst key) (fst it) (snd it)) c3 @ [Consume (fst key) q d2]
            @ map (\<lambda>it. Consume (fst key) (fst it) (snd it)) c4)"
  proof
    assume "map_of (map_get (r_inverted (m_router s)) (fst key)) q = Some d1
         \<and> map_of snapshot q = Some d2 \<and> d1 \<noteq> d2"
    then obtain c1 c2 c3 c4 where "snd diff = c1 @ (q, d1) # c2" "fst diff = c3 @ (q, d2) # c4"
      using change by blast
    then have "gw_calls g' = gw_calls g
            @ map (\<lambda>it. Cleanup (fst key) (fst it)) c1 @ [Cleanup (fst key) q]
            @ map (\<lambda>it. Cleanup (fst key) (fst it)) c2
            @ map (\<lambda>it. Consume (fst key) (fst it) (snd it)) c3 @ [Consume (fst key) q d2]
            @ map (\<lambda>it. Consume (fst key) (fst it) (snd it)) c4"
      by (simp add: g'_def)
    then show "\<exists>(c1 :: synchronize_result_type) (c2 :: synchronize_result_type) c3 c4.
          gw_calls g' = gw_calls g
            @ map (\<lambda>it. Cleanup (fst key) (fst it)) c1 @ [Cleanup (fst key) q]
            @ map (\<lambda>it. Cleanup (fst key) (fst it)) c2
            @ map (\<lambda>it. Consume (fst key) (fst it) (snd it)) c3 @ [Consume (fst key) q d2]
            @ map (\<lambda>it. Consume (fst key) (fst it) (snd it)) c4"
      by blast
  qed
  have all: "gw_calls g' = gw_calls g
         @ map (\<lambda>it. Cleanup (fst key) (fst it))
             (snd (fst (update_remote (fst key) snapshot (m_router s))))
         @ map (\<lambda>it. Consume (fst key) (fst it) (snd it))
             (fst (fst (update_remote (fst key) snapshot (m_router s))))"
    by (simp add: g'_def diff_def)
  have rt: "m_router (s\<lparr> m_router := router, m_gateway := Some g' \<rparr>)
            = snd (update_remote (fst key) snapshot (m_router s))"
    by (simp add: router_def)
  show ?thesis
    apply (rule exI [of _ "s\<lparr> m_router := router, m_gateway := Some g' \<rparr>"])
    apply (rule exI [of _ g'])
    using run calls all rt by simp
qed

lemma update_remote_router_AC:
  "fst (update_remote ''node-A'' [(''queue'', ''queue@A/2''), (''storage'', ''storage@A'')] router_AC)
     = ([(''queue'', ''queue@A/2'')], [(''queue'', ''queue@A/1'')])"
  by (simp add: update_remote_def router_AC_def map_get_def Let_def)

theorem chunk_removals_before_additions_witness:
  "m_gateway locator_live = Some adhoc_gateway
   \<and> map_of (map_get (r_inverted (m_router locator_live)) (fst key_A)) ''queue''
       = Some ''queue@A/1''
   \<and> map_of [(''queue'', ''queue@A/2''), (''storage'', ''storage@A'')] ''queue''
       = Some ''queue@A/2''
   \<and> ''queue@A/1'' \<noteq> ''queue@A/2''
   \<and> (\<exists>s' g'. on_message key_A
                   (Chunk (Some [(''queue'', ''queue@A/2''), (''storage'', ''storage@A'')]))
                   locator_live = Inr s'
          \<and> m_gateway s' = Some g'
          \<and> gw_calls g' = [Cleanup ''node-A'' ''queue'', Consume ''node-A'' ''queue'' ''queue@A/2''])"
proof -
  let ?snapshot = "[(''queue'', ''queue@A/2''), (''storage'', ''storage@A'')]"
  have gw: "m_gateway locator_live = Some adhoc_gateway"
    by (simp add: locator_live_def locator_B_def)
  have rt: "m_router locator_live = router_AC"
    by (simp add: locator_live_def)
  have old: "map_of (map_get (r_inverted (m_router locator_live)) (fst key_A)) ''queue''
               = Some ''queue@A/1''"
    by (simp add: rt router_AC_def key_A_def map_get_def)
  obtain s' g' where run: "on_message key_A (Chunk (Some ?snapshot)) locator_live = Inr s'"
    and g': "m_gateway s' = Some g'"
    and calls: "gw_calls g' = gw_calls adhoc_gateway
         @ map (\<lambda>it. Cleanup (fst key_A) (fst it))
             (snd (fst (update_remote (fst key_A) ?snapshot (m_router locator_live))))
         @ map (\<lambda>it. Consume (fst key_A) (fst it) (snd it))
             (fst (fst (update_remote (fst key_A) ?snapshot (m_router locator_live))))"
    using chunk_removals_before_additions [OF gw, of key_A ?snapshot] by blast
  have "gw_calls g' = [Cleanup ''node-A'' ''queue'', Consume ''node-A'' ''queue'' ''queue@A/2'']"
    using calls by (simp add: rt key_A_def update_remote_router_AC adhoc_gateway_def)
  with gw old run g' show ?thesis by simp
qed

text \<open>
  Claim C8. A message-arrival callback never erases a peer entry itself: \<open>on_message\<close>
  returns with \<open>m_remotes\<close> as it was, and for an error or a choke frame it has posted
  the erase of the entry to the reactor, after the jobs already posted (for a chunk or an
  unknown message it posts nothing); the entry is gone once the reactor has run its posted
  jobs. The failure callback and the timeout callback erase the entry before they return
  and post nothing.
\<close>

theorem erase_deferred_in_on_message:
  "(on_message key message s = Inr s1 \<longrightarrow>
      m_remotes s1 = m_remotes s
      \<and> m_reactor s1 = (if message = ErrorFrame \<or> message = Choke
                        then m_reactor s @ [Erase key] else m_reactor s)
      \<and> (message = ErrorFrame \<or> message = Choke \<longrightarrow> m_remotes (reactor_turn s1) key = None))
   \<and> (on_failure key ec s = Inr s2 \<longrightarrow>
      m_remotes s2 = (m_remotes s)(key := None) \<and> m_reactor s2 = m_reactor s)
   \<and> (on_timeout key s = Inr s3 \<longrightarrow>
      m_remotes s3 = (m_remotes s)(key := None) \<and> m_reactor s3 = m_reactor s)"
proof (intro conjI impI)
  assume run: "on_message key message s = Inr s1"
  show "m_remotes s1 = m_remotes s"
    using run
    by (cases message)
       (auto simp: on_message_def Let_def case_prod_beta post_def log_fields
             split: option.splits sum.splits dest: evict_fields)
  show queue: "m_reactor s1 = (if message = ErrorFrame \<or> message = Choke
                        then m_reactor s @ [Erase key] else m_reactor s)"
    using run
    by (cases message)
       (auto simp: on_message_def Let_def case_prod_beta post_def log_fields
             split: option.splits sum.splits dest: evict_fields)
  show "m_remotes (reactor_turn s1) key = None" if "message = ErrorFrame \<or> message = Choke"
    using that queue by (simp add: reactor_turn_fields)
next
  assume run: "on_failure key ec s = Inr s2"
  then show "m_remotes s2 = (m_remotes s)(key := None)" and "m_reactor s2 = m_reactor s"
    by (auto simp: on_failure_def Let_def log_fields split: sum.splits if_splits dest: evict_fields)
next
  assume run: "on_timeout key s = Inr s3"
  then show "m_remotes s3 = (m_remotes s)(key := None)" and "m_reactor s3 = m_reactor s"
    by (auto simp: on_timeout_def Let_def log_fields split: sum.splits dest: evict_fields)
qed

lemma closing_callbacks_return:
  assumes "m_gateway s = Some g"
  shows "\<exists>s1 s2 s3. on_message key Choke s = Inr s1 \<and> on_failure key ec s = Inr s2
           \<and> on_timeout key s = Inr s3"
proof -
  have "\<And>p msg. \<exists>s1. evict (fst key) (log p msg s) = Inr s1"
    using evict_Some [of "log _ _ s" g "fst key"] assms by (simp add: log_fields)
  then have "\<And>p msg. \<not> isl (evict (fst key) (log p msg s))"
    by (metis sum.disc(2))
  then show ?thesis
    by (auto simp: on_message_def on_failure_def on_timeout_def Let_def isl_def split: sum.splits)
qed

theorem erase_deferred_in_on_message_witness:
  "\<exists>s1 s2 s3. on_message key_A Choke locator_live = Inr s1
      \<and> m_remotes s1 key_A = Some live_remote \<and> m_reactor s1 = [Erase key_A]
      \<and> m_remotes (reactor_turn s1) key_A = None
      \<and> on_failure key_A None locator_live = Inr s2
      \<and> m_remotes s2 key_A = None \<and> m_reactor s2 = []
      \<and> on_timeout key_A locator_live = Inr s3
      \<and> m_remotes s3 key_A = None \<and> m_reactor s3 = []"
proof -
  have gw: "m_gateway locator_live = Some adhoc_gateway"
    by (simp add: locator_live_def locator_B_def)
  have st: "m_remotes locator_live key_A = Some live_remote" "m_reactor locator_live = []"
    by (simp_all add: locator_live_def locator_B_def key_A_def key_C_def)
  obtain s1 s2 s3 where run: "on_message key_A Choke locator_live = Inr s1"
    "on_failure key_A None locator_live = Inr s2" "on_timeout key_A locator_live = Inr s3"
    using closing_callbacks_return [OF gw, of key_A None] by blast
  have "m_remotes s1 key_A = Some live_remote \<and> m_reactor s1 = [Erase key_A]
      \<and> m_remotes (reactor_turn s1) key_A = None
      \<and> m_remotes s2 key_A = None \<and> m_reactor s2 = []
      \<and> m_remotes s3 key_A = None \<and> m_reactor s3 = []"
    using erase_deferred_in_on_message [of key_A Choke locator_live s1 None s2 s3] run
    by (simp add: st)
  with run show ?thesis by blast
qed

section \<open>Properties of the announce engine\<close>

lemma on_announce_timer_tick:
  assumes "m_announce s = Some sent"
  shows "\<exists>s'. on_announce_timer cfg written s = Inr s'
    \<and> m_announce s' = Some (sent @ [Packed (network_uuid cfg, network_hostname cfg, network_locator cfg)])
    \<and> s' = s\<lparr> m_announce := m_announce s', m_log := m_log s' \<rparr>
    \<and> (written = Complete \<longrightarrow> m_log s' = m_log s)
    \<and> (written \<noteq> Complete \<longrightarrow> (\<exists>msg. m_log s' = m_log s @ [(LogError, msg)]))"
proof (cases written)
  case Complete
  with assms show ?thesis
    by (simp add: on_announce_timer_def)
next
  case (Incomplete ec)
  with assms show ?thesis
    by (cases ec) (simp_all add: on_announce_timer_def log_def)
qed

lemma ticks_announce:
  "m_announce s = Some sent \<Longrightarrow>
   \<exists>s'. ticks cfg outcomes s = Inr s'
     \<and> m_announce s' = Some (sent @ replicate (length outcomes)
           (Packed (network_uuid cfg, network_hostname cfg, network_locator cfg)))
     \<and> s' = s\<lparr> m_announce := m_announce s', m_log := m_log s' \<rparr>"
proof (induction outcomes arbitrary: s sent)
  case Nil
  then show ?case by simp
next
  case (Cons written rest)
  let ?key = "Packed (network_uuid cfg, network_hostname cfg, network_locator cfg)"
  obtain s1 where tick: "on_announce_timer cfg written s = Inr s1"
    and sent1: "m_announce s1 = Some (sent @ [?key])"
    and same1: "s1 = s\<lparr> m_announce := m_announce s1, m_log := m_log s1 \<rparr>"
    using on_announce_timer_tick [OF Cons.prems, of cfg written] by blast
  obtain s' where rest: "ticks cfg rest s1 = Inr s'"
    and sent': "m_announce s' = Some ((sent @ [?key]) @ replicate (length rest) ?key)"
    and same': "s' = s1\<lparr> m_announce := m_announce s', m_log := m_log s' \<rparr>"
    using Cons.IH [OF sent1] by blast
  have "ticks cfg (written # rest) s = Inr s'"
    using tick rest by simp
  moreover have "m_announce s' = Some (sent @ replicate (length (written # rest)) ?key)"
    using sent' by (simp add: replicate_append_same)
  moreover have "s' = s\<lparr> m_announce := m_announce s', m_log := m_log s' \<rparr>"
    by (subst same', subst same1) simp
  ultimately show ?case by blast
qed

lemma connect_timer:
  "fst (connect pf cfg sys s) = None \<Longrightarrow>
   m_announce_timer (snd (connect pf cfg sys s)) = Some \<lparr> timer_after = 0, timer_repeat = 5 \<rparr>
   \<and> m_announce (snd (connect pf cfg sys s)) = Some []"
  by (auto simp: connect_def Let_def split: if_splits option.splits sum.splits prod.splits)

text \<open>
  Claim C9. \<open>connect\<close> starts the announce timer with a first expiry at once and a period
  of 5 seconds. Each tick hands one datagram to the announce socket, the packed peer key
  (uuid, hostname, locator port) of this node. A tick whose write is not complete logs one
  error line and changes nothing else: apart from the log and the record of the datagrams
  handed to the socket, the state, timer included, is the one before the tick; so after any
  sequence of ticks, whatever their writes answered, every tick has handed its announce to
  the socket and the timer is as it was.
\<close>

theorem announce_timer_ticks:
  "(fst (connect pf cfg sys s0) = None \<longrightarrow>
      m_announce_timer (snd (connect pf cfg sys s0)) = Some \<lparr> timer_after = 0, timer_repeat = 5 \<rparr>
      \<and> m_announce (snd (connect pf cfg sys s0)) = Some [])
   \<and> (m_announce s = Some sent \<longrightarrow>
      (\<exists>s'. on_announce_timer cfg written s = Inr s'
         \<and> m_announce s'
             = Some (sent @ [Packed (network_uuid cfg, network_hostname cfg, network_locator cfg)])
         \<and> s' = s\<lparr> m_announce := m_announce s', m_log := m_log s' \<rparr>
         \<and> m_announce_timer s' = m_announce_timer s
         \<and> (written = Complete \<longrightarrow> m_log s' = m_log s)
         \<and> (written \<noteq> Complete \<longrightarrow> (\<exists>msg. m_log s' = m_log s @ [(LogError, msg)])))
      \<and> (\<exists>s'. ticks cfg outcomes s = Inr s'
         \<and> m_announce s' = Some (sent @ replicate (length outcomes)
               (Packed (network_uuid cfg, network_hostname cfg, network_locator cfg)))
         \<and> s' = s\<lparr> m_announce := m_announce s', m_log := m_log s' \<rparr>
         \<and> m_announce_timer s' = m_announce_timer s))"
proof (intro conjI impI)
  assume "fst (connect pf cfg sys s0) = None"
  then show "m_announce_timer (snd (connect pf cfg sys s0))
               = Some \<lparr> timer_after = 0, timer_repeat = 5 \<rparr>"
    and "m_announce (snd (connect pf cfg sys s0)) = Some []"
    using connect_timer by blast+
next
  assume sent: "m_announce s = Some sent"
  have timer: "m_announce_timer s' = m_announce_timer s"
    if "s' = s\<lparr> m_announce := m_announce s', m_log := m_log s' \<rparr>" for s'
    using arg_cong [OF that, of m_announce_timer] by simp
  show "\<exists>s'. on_announce_timer cfg written s = Inr s'
         \<and> m_announce s'
             = Some (sent @ [Packed (network_uuid cfg, network_hostname cfg, network_locator cfg)])
         \<and> s' = s\<lparr> m_announce := m_announce s', m_log := m_log s' \<rparr>
         \<and> m_announce_timer s' = m_announce_timer s
         \<and> (written = Complete \<longrightarrow> m_log s' = m_log s)
         \<and> (written \<noteq> Complete \<longrightarrow> (\<exists>msg. m_log s' = m_log s @ [(LogError, msg)]))"
    using on_announce_timer_tick [OF sent, of cfg written] timer by blast
  show "\<exists>s'. ticks cfg outcomes s = Inr s'
         \<and> m_announce s' = Some (sent @ replicate (length outcomes)
               (Packed (network_uuid cfg, network_hostname cfg, network_locator cfg)))
         \<and> s' = s\<lparr> m_announce := m_announce s', m_log := m_log s' \<rparr>
         \<and> m_announce_timer s' = m_announce_timer s"
    using ticks_announce [OF sent, of cfg outcomes] timer by blast
qed

theorem announce_timer_ticks_witness:
  "fst (connect debug_build cfg_pool sys_ok locator_fresh) = None
   \<and> m_announce_timer (snd (connect debug_build cfg_pool sys_ok locator_fresh))
       = Some \<lparr> timer_after = 0, timer_repeat = 5 \<rparr>
   \<and> m_announce locator_B = Some []
   \<and> (\<exists>s'. on_announce_timer cfg_pool (Incomplete (Some 101)) locator_B = Inr s'
         \<and> m_announce s' = Some [Packed (''node-B'', ''b.example'', 10053)]
         \<and> m_log s' = [(LogError, ''unable to announce the node - [%d] %s'')]
         \<and> m_announce_timer s' = Some \<lparr> timer_after = 0, timer_repeat = 5 \<rparr>)
   \<and> (\<exists>s'. ticks cfg_pool [Incomplete (Some 101), Incomplete None, Complete] locator_B = Inr s'
         \<and> m_announce s' = Some [Packed (''node-B'', ''b.example'', 10053),
                                 Packed (''node-B'', ''b.example'', 10053),
                                 Packed (''node-B'', ''b.example'', 10053)]
         \<and> m_announce_timer s' = Some \<lparr> timer_after = 0, timer_repeat = 5 \<rparr>)"
proof -
  have ok: "fst (connect debug_build cfg_pool sys_ok locator_fresh) = None"
    by (simp add: connect_def debug_build_def cfg_pool_def sys_ok_def Let_def)
  have sent: "m_announce locator_B = Some []"
    and timer: "m_announce_timer locator_B = Some \<lparr> timer_after = 0, timer_repeat = 5 \<rparr>"
    and nolog: "m_log locator_B = []"
    by (simp_all add: locator_B_def)
  have key: "Packed (network_uuid cfg_pool, network_hostname cfg_pool, network_locator cfg_pool)
               = Packed (''node-B'', ''b.example'', 10053)"
    by (simp add: cfg_pool_def)
  note inst = announce_timer_ticks [of debug_build cfg_pool sys_ok locator_fresh locator_B "[]"
      "Incomplete (Some 101)" "[Incomplete (Some 101), Incomplete None, Complete]"]
  have armed: "m_announce_timer (snd (connect debug_build cfg_pool sys_ok locator_fresh))
       = Some \<lparr> timer_after = 0, timer_repeat = 5 \<rparr>"
    using inst ok by simp
  let ?packed = "Packed (network_uuid cfg_pool, network_hostname cfg_pool, network_locator cfg_pool)"
  let ?outcomes = "[Incomplete (Some 101), Incomplete None, Complete]"
  have "\<exists>s'. on_announce_timer cfg_pool (Incomplete (Some 101)) locator_B = Inr s'
          \<and> m_announce s' = Some ([] @ [?packed])
          \<and> m_announce_timer s' = m_announce_timer locator_B"
    using inst sent by blast
  then obtain s1 where one: "on_announce_timer cfg_pool (Incomplete (Some 101)) locator_B = Inr s1"
    and one_raw: "m_announce s1 = Some ([] @ [?packed])"
    and one_same: "m_announce_timer s1 = m_announce_timer locator_B"
    by blast
  have one_sent: "m_announce s1 = Some [Packed (''node-B'', ''b.example'', 10053)]"
    using one_raw by (simp add: key)
  have one_timer: "m_announce_timer s1 = Some \<lparr> timer_after = 0, timer_repeat = 5 \<rparr>"
    using one_same timer by simp
  have one_log: "m_log s1 = [(LogError, ''unable to announce the node - [%d] %s'')]"
    using one by (auto simp: on_announce_timer_def sent log_def nolog)
  have "\<exists>s'. ticks cfg_pool ?outcomes locator_B = Inr s'
          \<and> m_announce s' = Some ([] @ replicate (length ?outcomes) ?packed)
          \<and> m_announce_timer s' = m_announce_timer locator_B"
    using inst sent by blast
  then obtain s3 where three: "ticks cfg_pool ?outcomes locator_B = Inr s3"
    and three_raw: "m_announce s3 = Some ([] @ replicate (length ?outcomes) ?packed)"
    and three_same: "m_announce_timer s3 = m_announce_timer locator_B"
    by blast
  have three_list: "m_announce s3 = Some [Packed (''node-B'', ''b.example'', 10053),
      Packed (''node-B'', ''b.example'', 10053), Packed (''node-B'', ''b.example'', 10053)]"
    using three_raw by (simp add: key)
  have three_timer: "m_announce_timer s3 = Some \<lparr> timer_after = 0, timer_repeat = 5 \<rparr>"
    using three_same timer by simp
  show ?thesis
    using ok armed sent one one_sent one_log one_timer three three_list three_timer
    by blast
qed

section \<open>Peer entries and the remote catalog\<close>

lemma keys_map_put: "fst ` set (map_put k v m) = insert k (fst ` set m)"
  using arg_cong [OF map_of_map_put, of dom k v m] by (simp add: dom_map_of_conv_image_fst)

lemma keys_map_erase: "fst ` set (map_erase k m) = fst ` set m - {k}"
  by (auto simp: map_erase_def)

lemma router_add_keys:
  "fst ` set (r_inverted (router_add uuid name d r)) = insert uuid (fst ` set (r_inverted r))"
  by (simp add: router_add_def Let_def keys_map_put)

lemma router_remove_keys:
  "fst ` set (r_inverted (router_remove uuid name r)) \<subseteq> insert uuid (fst ` set (r_inverted r))"
  by (auto simp: router_remove_def Let_def keys_map_put split: option.splits)

lemma fold_keys_subset:
  assumes "\<And>x r. fst ` set (r_inverted (f x r)) \<subseteq> insert uuid (fst ` set (r_inverted r))"
  shows "fst ` set (r_inverted (fold f xs r)) \<subseteq> insert uuid (fst ` set (r_inverted r))"
proof (induction xs arbitrary: r)
  case Nil
  show ?case by auto
next
  case (Cons x xs)
  have "fst ` set (r_inverted (fold f xs (f x r))) \<subseteq> insert uuid (fst ` set (r_inverted (f x r)))"
    by (rule Cons.IH)
  also have "\<dots> \<subseteq> insert uuid (insert uuid (fst ` set (r_inverted r)))"
    using assms [of x r] by blast
  finally show ?case by simp
qed

lemma update_remote_keys:
  "fst ` set (r_inverted (snd (update_remote uuid snapshot r)))
     \<subseteq> insert uuid (fst ` set (r_inverted r))"
proof -
  let ?removed = "filter (\<lambda>(name, d). map_of snapshot name \<noteq> Some d) (map_get (r_inverted r) uuid)"
  let ?added = "filter (\<lambda>(name, d). map_of (map_get (r_inverted r) uuid) name \<noteq> Some d) snapshot"
  let ?r1 = "fold (\<lambda>(name, d). router_remove uuid name) ?removed r"
  have "fst ` set (r_inverted (fold (\<lambda>(name, d). router_add uuid name d) ?added ?r1))
          \<subseteq> insert uuid (fst ` set (r_inverted ?r1))"
    by (rule fold_keys_subset) (simp add: case_prod_beta router_add_keys)
  moreover have "fst ` set (r_inverted ?r1) \<subseteq> insert uuid (fst ` set (r_inverted r))"
    by (rule fold_keys_subset) (simp add: case_prod_beta router_remove_keys)
  ultimately show ?thesis
    by (auto simp: update_remote_def Let_def)
qed

lemma remove_remote_keys:
  "fst ` set (r_inverted (snd (remove_remote uuid r))) = fst ` set (r_inverted r) - {uuid}"
  by (simp add: remove_remote_def Let_def keys_map_erase)


lemma covered_intro:
  assumes "\<And>uuid. uuid \<in> fst ` set (r_inverted (m_router s)) \<Longrightarrow>
             \<exists>hostname port. m_remotes s (uuid, hostname, port) \<noteq> None
                         \<and> Erase (uuid, hostname, port) \<notin> set (m_reactor s)"
  shows "covered s"
  using assms by (simp add: covered_def)

lemma covered_elim:
  assumes "covered s" and "uuid \<in> fst ` set (r_inverted (m_router s))"
  obtains hostname port where "m_remotes s (uuid, hostname, port) \<noteq> None"
    and "Erase (uuid, hostname, port) \<notin> set (m_reactor s)"
  using assms unfolding covered_def by blast

lemma covered_same:
  assumes "covered s"
    and "r_inverted (m_router s') = r_inverted (m_router s)"
    and "m_reactor s' = m_reactor s"
    and "\<And>key. m_remotes s key \<noteq> None \<Longrightarrow> m_remotes s' key \<noteq> None"
  shows "covered s'"
  using assms unfolding covered_def by metis

lemma on_message_cases:
  assumes "on_message key message s = Inr s'"
  shows "m_remotes s' = m_remotes s \<and>
    ((\<exists>snapshot payload. m_router s' = snd (update_remote (fst key) snapshot (m_router s))
         \<and> m_reactor s' = m_reactor s \<and> message = Chunk payload)
     \<or> (m_router s' = snd (remove_remote (fst key) (m_router s))
         \<and> m_reactor s' = m_reactor s @ [Erase key])
     \<or> (m_router s' = m_router s \<and> m_reactor s' = m_reactor s))"
  using assms
  by (cases message)
     (auto simp: on_message_def Let_def case_prod_beta post_def log_fields
           split: option.splits sum.splits dest: evict_fields)

lemma covered_on_message:
  assumes "covered s" and "chunk_of_live_peer (Message key message) s"
    and "on_message key message s = Inr s'"
  shows "covered s'"
proof (rule covered_intro)
  fix uuid
  assume in_catalog: "uuid \<in> fst ` set (r_inverted (m_router s'))"
  note effect = on_message_cases [OF assms(3)]
  have remotes: "m_remotes s' = m_remotes s"
    using effect by simp
  consider (chunk) snapshot payload where
      "m_router s' = snd (update_remote (fst key) snapshot (m_router s))"
      "m_reactor s' = m_reactor s" "message = Chunk payload"
    | (closed) "m_router s' = snd (remove_remote (fst key) (m_router s))"
      "m_reactor s' = m_reactor s @ [Erase key]"
    | (unknown) "m_router s' = m_router s" "m_reactor s' = m_reactor s"
    using effect by blast
  then show "\<exists>hostname port. m_remotes s' (uuid, hostname, port) \<noteq> None
               \<and> Erase (uuid, hostname, port) \<notin> set (m_reactor s')"
  proof cases
    case chunk
    have live: "m_remotes s key \<noteq> None" "Erase key \<notin> set (m_reactor s)"
      using assms(2) chunk(3) by simp_all
    show ?thesis
    proof (cases "uuid = fst key")
      case True
      then have "key = (uuid, fst (snd key), snd (snd key))"
        by simp
      then show ?thesis
        using live remotes chunk(2) by metis
    next
      case False
      then have "uuid \<in> fst ` set (r_inverted (m_router s))"
        using in_catalog chunk(1) update_remote_keys [of "fst key" snapshot "m_router s"] by auto
      then show ?thesis
        using assms(1) remotes chunk(2) covered_elim by metis
    qed
  next
    case closed
    have other: "uuid \<noteq> fst key" and "uuid \<in> fst ` set (r_inverted (m_router s))"
      using in_catalog closed(1) by (simp_all add: remove_remote_keys)
    then obtain hostname port where "m_remotes s (uuid, hostname, port) \<noteq> None"
      and "Erase (uuid, hostname, port) \<notin> set (m_reactor s)"
      using assms(1) covered_elim by metis
    moreover have "(uuid, hostname, port) \<noteq> key"
      using other by auto
    ultimately show ?thesis
      using remotes closed(2) by auto
  next
    case unknown
    then show ?thesis
      using assms(1) in_catalog remotes covered_elim by metis
  qed
qed

lemma closing_callback_effect:
  assumes "on_failure key ec s = Inr s' \<or> on_timeout key s = Inr s'"
  shows "m_remotes s' = (m_remotes s)(key := None)"
    and "m_reactor s' = m_reactor s"
    and "m_router s' = snd (remove_remote (fst key) (m_router s))"
  using assms
  by (auto simp: on_failure_def on_timeout_def Let_def log_fields
           split: sum.splits if_splits dest: evict_fields)

lemma covered_closing_callback:
  assumes "covered s"
    and "on_failure key ec s = Inr s' \<or> on_timeout key s = Inr s'"
  shows "covered s'"
proof (rule covered_intro)
  fix uuid
  assume in_catalog: "uuid \<in> fst ` set (r_inverted (m_router s'))"
  note effect = closing_callback_effect [OF assms(2)]
  have other: "uuid \<noteq> fst key" and "uuid \<in> fst ` set (r_inverted (m_router s))"
    using in_catalog effect(3) by (simp_all add: remove_remote_keys)
  then obtain hostname port where "m_remotes s (uuid, hostname, port) \<noteq> None"
    and "Erase (uuid, hostname, port) \<notin> set (m_reactor s)"
    using assms(1) covered_elim by metis
  moreover have "(uuid, hostname, port) \<noteq> key"
    using other by auto
  ultimately show "\<exists>hostname port. m_remotes s' (uuid, hostname, port) \<noteq> None
               \<and> Erase (uuid, hostname, port) \<notin> set (m_reactor s')"
    using effect(1,2) by auto
qed

lemma covered_reactor_turn: "covered s \<Longrightarrow> covered (reactor_turn s)"
  unfolding covered_def by (simp add: reactor_turn_fields) metis


lemma connect_first_fields:
  "connect_first ok endpoints s = (found, s') \<Longrightarrow>
   m_router s' = m_router s \<and> m_remotes s' = m_remotes s \<and> m_reactor s' = m_reactor s"
  by (induction endpoints arbitrary: s) (auto simp: log_fields split: if_splits)

lemma heartbeat_fields:
  "heartbeat key s = Inr s' \<Longrightarrow>
   m_router s' = m_router s \<and> m_reactor s' = m_reactor s
   \<and> (\<forall>k. m_remotes s k \<noteq> None \<longrightarrow> m_remotes s' k \<noteq> None)
   \<and> m_remotes s' key \<noteq> None"
  by (auto simp: heartbeat_def Let_def log_fields split: option.splits)

lemma on_announce_event_fields:
  assumes "on_announce_event net rcv s = Inr s'"
  shows "m_router s' = m_router s \<and> m_reactor s' = m_reactor s
   \<and> (\<forall>k. m_remotes s k \<noteq> None \<longrightarrow> m_remotes s' k \<noteq> None)"
proof (cases rcv)
  case (ReadFailed ec)
  with assms show ?thesis
    by (auto simp: on_announce_event_def log_fields split: if_splits)
next
  case (Received d)
  show ?thesis
  proof (cases d)
    case (Garbage bytes)
    with assms Received show ?thesis
      by (auto simp: on_announce_event_def log_fields split: if_splits)
  next
    case (Packed key)
    show ?thesis
    proof (cases "m_remotes s key = None")
      case False
      with assms Received Packed have "heartbeat key s = Inr s'"
        by (auto simp: on_announce_event_def split: if_splits)
      then show ?thesis
        using heartbeat_fields by blast
    next
      case True
      obtain uuid hostname port where key: "key = (uuid, hostname, port)"
        by (cases key) auto
      let ?s1 = "log LogInfo (''discovered node '%s' on '%s:%d'' @ [CHR 0x27]) s"
      show ?thesis
      proof (cases "resolver_query net hostname port")
        case (Inl what)
        with assms Received Packed True key show ?thesis
          by (auto simp: on_announce_event_def log_fields split: if_splits)
      next
        case (Inr endpoints)
        obtain found s2 where cf: "connect_first (connects net) endpoints ?s1 = (found, s2)"
          by (cases "connect_first (connects net) endpoints ?s1") auto
        then have same: "m_router s2 = m_router s" "m_remotes s2 = m_remotes s"
          "m_reactor s2 = m_reactor s"
          using connect_first_fields [OF cf] by (simp_all add: log_fields)
        show ?thesis
        proof (cases found)
          case None
          with assms Received Packed True key Inr cf same show ?thesis
            by (auto simp: on_announce_event_def log_fields split: if_splits)
        next
          case (Some endpoint)
          let ?s3 = "s2\<lparr> m_remotes := (m_remotes s2)(key \<mapsto>
                        \<lparr> channel = \<lparr> ch_endpoint = endpoint, ch_written = [Synchronize] \<rparr>,
                          timeout = None \<rparr>) \<rparr>"
          have "heartbeat key ?s3 = Inr s'"
            using assms Received Packed True key Inr cf Some
            by (auto simp: on_announce_event_def split: if_splits)
          then have "m_router s' = m_router ?s3" "m_reactor s' = m_reactor ?s3"
            "\<forall>k. m_remotes ?s3 k \<noteq> None \<longrightarrow> m_remotes s' k \<noteq> None"
            using heartbeat_fields by blast+
          then show ?thesis
            using same by auto
        qed
      qed
    qed
  qed
qed

lemma on_announce_timer_fields:
  "on_announce_timer cfg written s = Inr s' \<Longrightarrow>
   m_router s' = m_router s \<and> m_reactor s' = m_reactor s \<and> m_remotes s' = m_remotes s"
  by (auto simp: on_announce_timer_def Let_def log_def
      split: option.splits write_result.splits)

lemma facade_fields:
  "attach pf cfg name a s = Returns (e, s') \<Longrightarrow>
   r_inverted (m_router s') = r_inverted (m_router s)
   \<and> m_reactor s' = m_reactor s \<and> m_remotes s' = m_remotes s"
  "detach pf cfg name s = Returns (service, s') \<Longrightarrow>
   r_inverted (m_router s') = r_inverted (m_router s)
   \<and> m_reactor s' = m_reactor s \<and> m_remotes s' = m_remotes s"
  "r_inverted (m_router (snd (resolve rnd name s))) = r_inverted (m_router s)
   \<and> m_reactor (snd (resolve rnd name s)) = m_reactor s
   \<and> m_remotes (snd (resolve rnd name s)) = m_remotes s"
  "r_inverted (m_router (snd (refresh stored name s))) = r_inverted (m_router s)
   \<and> m_reactor (snd (refresh stored name s)) = m_reactor s
   \<and> m_remotes (snd (refresh stored name s)) = m_remotes s"
proof -
  show "attach pf cfg name a s = Returns (e, s') \<Longrightarrow>
   r_inverted (m_router s') = r_inverted (m_router s)
   \<and> m_reactor s' = m_reactor s \<and> m_remotes s' = m_remotes s"
    by (auto simp: attach_def Let_def run_cases synchronizer_update_fields log_fields add_local_def
        split: option.splits if_splits)
  show "detach pf cfg name s = Returns (service, s') \<Longrightarrow>
   r_inverted (m_router s') = r_inverted (m_router s)
   \<and> m_reactor s' = m_reactor s \<and> m_remotes s' = m_remotes s"
    by (auto simp: detach_def Let_def synchronizer_update_fields log_fields remove_local_def
        split: option.splits list.splits if_splits)
  show "r_inverted (m_router (snd (resolve rnd name s))) = r_inverted (m_router s)
   \<and> m_reactor (snd (resolve rnd name s)) = m_reactor s
   \<and> m_remotes (snd (resolve rnd name s)) = m_remotes s"
    by (auto simp: resolve_def Let_def log_fields split: option.splits)
  show "r_inverted (m_router (snd (refresh stored name s))) = r_inverted (m_router s)
   \<and> m_reactor (snd (refresh stored name s)) = m_reactor s
   \<and> m_remotes (snd (refresh stored name s)) = m_remotes s"
    by (auto simp: refresh_def Let_def log_fields add_group_def remove_group_def
        split: sum.splits exn.splits)
qed

lemma covered_fire:
  assumes "covered s" and "chunk_of_live_peer ev s" and "fire pf cfg ev s = Some s'"
  shows "covered s'"
proof (cases ev)
  case (AnnounceEvent net rcv)
  then have "on_announce_event net rcv s = Inr s'"
    using assms(3) by (simp split: sum.splits)
  from on_announce_event_fields [OF this] show ?thesis
    using assms(1) by (intro covered_same [of s s']) auto
next
  case (Message key message)
  then have "on_message key message s = Inr s'"
    using assms(3) by (simp split: sum.splits)
  then show ?thesis
    using assms(1,2) Message covered_on_message by simp
next
  case (Failure key ec)
  then have "on_failure key ec s = Inr s'"
    using assms(3) by (simp split: sum.splits)
  then show ?thesis
    using assms(1) covered_closing_callback [of s key ec s'] by simp
next
  case (Timeout key)
  then have "on_timeout key s = Inr s'"
    using assms(3) by (simp split: sum.splits)
  then show ?thesis
    using assms(1) covered_closing_callback [of s key None s'] by simp
next
  case (AnnounceTimer written)
  then have "on_announce_timer cfg written s = Inr s'"
    using assms(3) by (simp split: sum.splits)
  from on_announce_timer_fields [OF this] show ?thesis
    using assms(1) by (intro covered_same [of s s']) auto
next
  case Turn
  then show ?thesis
    using assms covered_reactor_turn by auto
next
  case (Attach name service)
  then obtain e where "attach pf cfg name service s = Returns (e, s')"
    using assms(3) by (auto split: outcome.splits prod.splits)
  from facade_fields(1) [OF this] show ?thesis
    using assms(1) by (intro covered_same [of s s']) auto
next
  case (Detach name)
  then obtain service where "detach pf cfg name s = Returns (service, s')"
    using assms(3) by (auto split: outcome.splits prod.splits)
  from facade_fields(2) [OF this] show ?thesis
    using assms(1) by (intro covered_same [of s s']) auto
next
  case (Resolve rnd name)
  then show ?thesis
    using assms(1,3) facade_fields(3) [of rnd name s]
    by (intro covered_same [of s s']) auto
next
  case (Refresh stored name)
  then show ?thesis
    using assms(1,3) facade_fields(4) [of stored name s]
    by (intro covered_same [of s s']) auto
qed

lemma covered_run_events:
  "covered s \<Longrightarrow> chunks_of_live_peers pf cfg evs s \<Longrightarrow> run_events pf cfg evs s = Some s'
   \<Longrightarrow> covered s'"
proof (induction evs arbitrary: s)
  case Nil
  then show ?case by simp
next
  case (Cons ev evs)
  from Cons.prems(3) obtain s1 where step: "fire pf cfg ev s = Some s1"
    and rest: "run_events pf cfg evs s1 = Some s'"
    by (auto split: option.splits)
  have live: "chunk_of_live_peer ev s" and rest_live: "chunks_of_live_peers pf cfg evs s1"
    using Cons.prems(2) step by simp_all
  have "covered s1"
    using covered_fire [OF Cons.prems(1) live step] .
  then show ?case
    using Cons.IH rest_live rest by blast
qed

lemma locator_connected_fields:
  "m_router locator_connected = m_router locator_0"
  "m_remotes locator_connected = Map.empty"
  "m_reactor locator_connected = []"
  "m_sink locator_connected = True"
  "m_gateway locator_connected = Some adhoc_gateway"
  by (simp_all add: locator_connected_def locator_fresh_def connect_def cfg_pool_def sys_ok_def
      debug_build_def locator_0_def Let_def log_def)

lemma discover:
  assumes "m_sink s" and "m_remotes s key = None"
  shows "\<exists>s'. on_announce_event net_ok (Received (Packed key)) s = Inr s'
      \<and> m_remotes s' = (m_remotes s)(key \<mapsto>
            \<lparr> channel = \<lparr> ch_endpoint = snd key, ch_written = [Synchronize] \<rparr>,
              timeout = Some 60 \<rparr>)
      \<and> m_router s' = m_router s \<and> m_reactor s' = m_reactor s \<and> m_sink s'
      \<and> m_gateway s' = m_gateway s"
  using assms
  by (cases key) (simp add: on_announce_event_def net_ok_def heartbeat_def Let_def log_def)

lemma on_announce_event_other_keys:
  assumes "on_announce_event net (Received (Packed key)) s = Inr s'" and "k \<noteq> key"
  shows "m_remotes s' k = m_remotes s k"
proof -
  have hb: "m_remotes s2 k = m_remotes s1 k" if "heartbeat key s1 = Inr s2" for s1 s2
    using that assms(2) by (auto simp: heartbeat_def Let_def log_fields split: option.splits)
  show ?thesis
  proof (cases "m_remotes s key = None")
    case False
    with assms(1) have "heartbeat key s = Inr s'"
      by (auto simp: on_announce_event_def split: if_splits)
    then show ?thesis by (rule hb)
  next
    case True
    obtain uuid hostname port where key: "key = (uuid, hostname, port)"
      by (cases key) auto
    let ?s1 = "log LogInfo (''discovered node '%s' on '%s:%d'' @ [CHR 0x27]) s"
    show ?thesis
    proof (cases "resolver_query net hostname port")
      case (Inl what)
      with assms(1) True key show ?thesis
        by (auto simp: on_announce_event_def log_fields split: if_splits)
    next
      case (Inr endpoints)
      obtain found s2 where cf: "connect_first (connects net) endpoints ?s1 = (found, s2)"
        by (cases "connect_first (connects net) endpoints ?s1") auto
      then have same: "m_remotes s2 = m_remotes s"
        using connect_first_fields [OF cf] by (simp add: log_fields)
      show ?thesis
      proof (cases found)
        case None
        with assms(1) True key Inr cf same show ?thesis
          by (auto simp: on_announce_event_def log_fields split: if_splits)
      next
        case (Some endpoint)
        let ?s3 = "s2\<lparr> m_remotes := (m_remotes s2)(key \<mapsto>
                      \<lparr> channel = \<lparr> ch_endpoint = endpoint, ch_written = [Synchronize] \<rparr>,
                        timeout = None \<rparr>) \<rparr>"
        have "heartbeat key ?s3 = Inr s'"
          using assms(1) True key Inr cf Some
          by (auto simp: on_announce_event_def split: if_splits)
        then have "m_remotes s' k = m_remotes ?s3 k"
          by (rule hb)
        then show ?thesis
          using same assms(2) by simp
      qed
    qed
  qed
qed

lemma chunk_step:
  assumes "m_gateway s = Some g"
  shows "\<exists>s'. on_message key (Chunk (Some snapshot)) s = Inr s'
      \<and> m_router s' = snd (update_remote (fst key) snapshot (m_router s))
      \<and> m_remotes s' = m_remotes s \<and> m_reactor s' = m_reactor s
      \<and> (\<exists>g'. m_gateway s' = Some g')"
  using assms
  by (simp add: on_message_def Let_def case_prod_beta cleanup_each_Some consume_each_Some)

lemma closing_step:
  assumes "m_gateway s = Some g" and "message = ErrorFrame \<or> message = Choke"
  shows "\<exists>s'. on_message key message s = Inr s'
      \<and> m_router s' = snd (remove_remote (fst key) (m_router s))
      \<and> m_remotes s' = m_remotes s \<and> m_reactor s' = m_reactor s @ [Erase key]
      \<and> (\<exists>g'. m_gateway s' = Some g')"
  using assms
  by (auto simp: on_message_def Let_def evict_Some log_fields post_def log_def)

text \<open>
  Claim C4, as stated, fails, in both directions of the bijection. The peer entries are
  keyed by the whole peer key, so the two announces of node-A under two hostnames leave two
  peer entries that share the uuid. And \<open>on_message\<close> does not look at the peer entries:
  node-C closes its stream, which evicts it and posts the erase of its entry, and one more
  chunk of its channel, dispatched before the reactor runs the erase, puts node-C back into
  the catalog; after the erase, node-C is a top-level key of the inverted remote catalog
  and no peer entry has this uuid.
\<close>

theorem shared_uuid_and_late_chunk_counterexample:
  "run_events debug_build cfg_pool late_chunk_run locator_connected \<noteq> None
   \<and> dom (m_remotes (the (run_events debug_build cfg_pool late_chunk_run locator_connected)))
       = {key_A, key_A'}
   \<and> fst key_A = ''node-A'' \<and> fst key_A' = ''node-A'' \<and> key_A \<noteq> key_A'
   \<and> map fst (r_inverted (m_router
         (the (run_events debug_build cfg_pool late_chunk_run locator_connected))))
       = [''node-C'']"
proof -
  let ?snap = "[(''queue'', ''queue@C/1'')]"
  obtain s1 where s1: "on_announce_event net_ok (Received (Packed key_A)) locator_connected = Inr s1"
    "dom (m_remotes s1) = {key_A}" "m_sink s1" "m_router s1 = m_router locator_0"
    "m_reactor s1 = []" "m_gateway s1 = Some adhoc_gateway"
    using discover [of locator_connected key_A]
    by (auto simp: locator_connected_fields)
  have "key_A' \<notin> dom (m_remotes s1)"
    unfolding s1(2) by (simp add: key_A_def key_A'_def)
  then have "m_remotes s1 key_A' = None"
    by blast
  from discover [OF s1(3) this]
  obtain s2 where s2: "on_announce_event net_ok (Received (Packed key_A')) s1 = Inr s2"
    "dom (m_remotes s2) = {key_A, key_A'}" "m_sink s2" "m_router s2 = m_router locator_0"
    "m_reactor s2 = []" "m_gateway s2 = Some adhoc_gateway"
    using s1(2,4,5,6) by (auto simp: insert_commute)
  have "key_C \<notin> dom (m_remotes s2)"
    unfolding s2(2) by (simp add: key_A_def key_A'_def key_C_def)
  then have "m_remotes s2 key_C = None"
    by blast
  from discover [OF s2(3) this]
  obtain s3 where s3: "on_announce_event net_ok (Received (Packed key_C)) s2 = Inr s3"
    "dom (m_remotes s3) = {key_A, key_A', key_C}" "m_router s3 = m_router locator_0"
    "m_reactor s3 = []" "m_gateway s3 = Some adhoc_gateway"
    using s2(2,4,5,6) by (auto simp: insert_commute)
  from chunk_step [OF s3(5), of key_C ?snap]
  obtain s4 g4 where s4: "on_message key_C (Chunk (Some ?snap)) s3 = Inr s4"
    "m_router s4 = snd (update_remote ''node-C'' ?snap (m_router locator_0))"
    "dom (m_remotes s4) = {key_A, key_A', key_C}" "m_reactor s4 = []" "m_gateway s4 = Some g4"
    using s3(2,3,4) by (auto simp: key_C_def)
  from closing_step [OF s4(5), of Choke key_C]
  obtain s5 g5 where s5: "on_message key_C Choke s4 = Inr s5"
    "m_router s5 = snd (remove_remote ''node-C'' (m_router s4))"
    "dom (m_remotes s5) = {key_A, key_A', key_C}" "m_reactor s5 = [Erase key_C]"
    "m_gateway s5 = Some g5"
    using s4(3,4) by (auto simp: key_C_def)
  from chunk_step [OF s5(5), of key_C ?snap]
  obtain s6 where s6: "on_message key_C (Chunk (Some ?snap)) s5 = Inr s6"
    "m_router s6 = snd (update_remote ''node-C'' ?snap (m_router s5))"
    "dom (m_remotes s6) = {key_A, key_A', key_C}" "m_reactor s6 = [Erase key_C]"
    using s5(3,4) by (auto simp: key_C_def)
  have run: "run_events debug_build cfg_pool late_chunk_run locator_connected
               = Some (reactor_turn s6)"
    using s1(1) s2(1) s3(1) s4(1) s5(1) s6(1) by (simp add: late_chunk_run_def)
  have "m_remotes (reactor_turn s6) = (m_remotes s6)(key_C := None)"
    by (rule ext) (simp add: reactor_turn_fields s6(4))
  then have entries: "dom (m_remotes (reactor_turn s6)) = {key_A, key_A'}"
    using s6(3) by (auto simp: key_A_def key_A'_def key_C_def)
  have catalog: "map fst (r_inverted (m_router (reactor_turn s6))) = [''node-C'']"
    by (simp add: reactor_turn_fields s6(2) s5(2) s4(2) locator_0_def update_remote_def
        remove_remote_def map_get_def map_erase_def Let_def router_add_def has_def
        groups_add_service_def groups_remove_service_def touch_groups_def)
  show ?thesis
    using run entries catalog by (simp add: key_A_def key_A'_def)
qed

text \<open>
  Claim C4, amended. Take any run of the locator, in either build, that starts with an empty
  remote catalog and in which every chunk is dispatched for a peer that has its entry and
  no erase posted at that moment; all other events (announces, error frames, chokes,
  failures, timeouts, turns of the reactor, calls of the facade) come freely, in any order.
  After the run every uuid that is a top-level key of the inverted remote catalog is the
  uuid of at least one peer entry (a peer entry may exist without a subtree in the
  catalog). Peer entries are keyed by the whole peer key: an announce changes the entry of
  its own key only, so announces that differ only in hostname or port make distinct
  entries with the same uuid; and the chunks of such entries collapse onto the one uuid in
  the router, the callback giving the same result for both keys.
\<close>

theorem catalog_uuids_have_peer_entries:
  "(r_inverted (m_router s0) = [] \<and> chunks_of_live_peers pf cfg evs s0
      \<and> run_events pf cfg evs s0 = Some s \<longrightarrow>
      (\<forall>uuid \<in> fst ` set (r_inverted (m_router s)).
         \<exists>hostname port. m_remotes s (uuid, hostname, port) \<noteq> None))
   \<and> (on_announce_event net (Received (Packed key)) s1 = Inr s2 \<and> k \<noteq> key \<longrightarrow>
      m_remotes s2 k = m_remotes s1 k)
   \<and> on_message (uuid1, hostname1, port1) (Chunk payload) s3
       = on_message (uuid1, hostname2, port2) (Chunk payload) s3"
proof (intro conjI impI)
  assume run: "r_inverted (m_router s0) = [] \<and> chunks_of_live_peers pf cfg evs s0
      \<and> run_events pf cfg evs s0 = Some s"
  then have "covered s0"
    by (simp add: covered_def)
  then have "covered s"
    using run covered_run_events by blast
  then show "\<forall>uuid \<in> fst ` set (r_inverted (m_router s)).
         \<exists>hostname port. m_remotes s (uuid, hostname, port) \<noteq> None"
    unfolding covered_def by blast
next
  assume "on_announce_event net (Received (Packed key)) s1 = Inr s2 \<and> k \<noteq> key"
  then show "m_remotes s2 k = m_remotes s1 k"
    using on_announce_event_other_keys by blast
next
  show "on_message (uuid1, hostname1, port1) (Chunk payload) s3
       = on_message (uuid1, hostname2, port2) (Chunk payload) s3"
    by (simp add: on_message_def)
qed

theorem catalog_uuids_have_peer_entries_witness:
  "r_inverted (m_router locator_connected) = []
   \<and> chunks_of_live_peers debug_build cfg_pool closing_frames_run locator_connected
   \<and> (\<exists>s. run_events debug_build cfg_pool closing_frames_run locator_connected = Some s
          \<and> r_inverted (m_router s) = [(''node-A'', [(''queue'', ''queue@A/1'')])]
          \<and> (\<exists>hostname port. m_remotes s (''node-A'', hostname, port) \<noteq> None)
          \<and> m_remotes s key_A = None
          \<and> m_remotes s key_C = None)"
proof -
  let ?snap = "[(''queue'', ''queue@A/1'')]"
  have empty: "r_inverted (m_router locator_connected) = []"
    by (simp add: locator_connected_fields locator_0_def)
  obtain s1 where s1: "on_announce_event net_ok (Received (Packed key_A)) locator_connected = Inr s1"
    "m_remotes s1 key_A' = None" "m_sink s1" "m_router s1 = m_router locator_0"
    "m_reactor s1 = []" "m_gateway s1 = Some adhoc_gateway" "m_remotes s1 key_C = None"
    using discover [of locator_connected key_A]
    by (auto simp: locator_connected_fields key_A_def key_A'_def key_C_def)
  obtain s2 where s2: "on_announce_event net_ok (Received (Packed key_A')) s1 = Inr s2"
    "m_remotes s2 key_A' \<noteq> None" "m_router s2 = m_router locator_0"
    "m_reactor s2 = []" "m_gateway s2 = Some adhoc_gateway"
    using discover [of s1 key_A'] s1(2-6) by auto
  have other: "m_remotes s2 key_C = None"
    using catalog_uuids_have_peer_entries [of _ _ _ _ _ net_ok key_A' s1 s2 key_C] s2(1) s1(7)
    by (simp add: key_A'_def key_C_def)
  from closing_step [OF s2(5), of ErrorFrame key_A]
  obtain s3 g3 where s3: "on_message key_A ErrorFrame s2 = Inr s3"
    "m_router s3 = snd (remove_remote ''node-A'' (m_router locator_0))"
    "m_remotes s3 = m_remotes s2" "m_reactor s3 = [Erase key_A]" "m_gateway s3 = Some g3"
    using s2(3,4) by (auto simp: key_A_def)
  from closing_step [OF s3(5), of Choke key_A]
  obtain s4 g4 where s4: "on_message key_A Choke s3 = Inr s4"
    "m_router s4 = snd (remove_remote ''node-A'' (m_router s3))"
    "m_remotes s4 = m_remotes s2" "m_reactor s4 = [Erase key_A, Erase key_A]"
    "m_gateway s4 = Some g4"
    using s3(3,4) by (auto simp: key_A_def)
  let ?s5 = "reactor_turn s4"
  have s5: "m_remotes ?s5 key_A' \<noteq> None" "m_remotes ?s5 key_A = None"
    "m_remotes ?s5 key_C = None" "m_reactor ?s5 = []" "m_gateway ?s5 = Some g4"
    "m_router ?s5 = m_router s4"
    using s2(2) other by (simp_all add: reactor_turn_fields s4 key_A_def key_A'_def key_C_def)
  from chunk_step [OF s5(5), of key_A' ?snap]
  obtain s6 where s6: "on_message key_A' (Chunk (Some ?snap)) ?s5 = Inr s6"
    "m_router s6 = snd (update_remote ''node-A'' ?snap (m_router s4))"
    "m_remotes s6 = m_remotes ?s5"
    using s5(6) by (auto simp: key_A'_def)
  have catalog: "r_inverted (m_router s6) = [(''node-A'', ?snap)]"
    by (simp add: s6(2) s4(2) s3(2) locator_0_def update_remote_def
        remove_remote_def map_get_def map_erase_def Let_def router_add_def has_def
        groups_add_service_def groups_remove_service_def touch_groups_def)
  have run: "run_events debug_build cfg_pool closing_frames_run locator_connected = Some s6"
    using s1(1) s2(1) s3(1) s4(1) s6(1) by (simp add: closing_frames_run_def)
  have live: "chunks_of_live_peers debug_build cfg_pool closing_frames_run locator_connected"
    using s1(1) s2(1) s3(1) s4(1) s6(1) s5(1,4) by (simp add: closing_frames_run_def)
  have "\<exists>hostname port. m_remotes s6 (''node-A'', hostname, port) \<noteq> None"
    using catalog_uuids_have_peer_entries
            [of locator_connected debug_build cfg_pool closing_frames_run s6]
          empty live run catalog
    by simp
  then show ?thesis
    using empty live run catalog s6(3) s5(2,3) by auto
qed

end
